theory Spec2Isabelle
  imports Complex_Main "HOL-Library.Log_Nat" "HOL-Library.Multiset"
begin

section \<open>JavaScript numbers\<close>

text \<open>
  A JavaScript Number is an IEEE-754 binary64 value. The finite values are carried by
  their real value, next to the two infinities and NaN. The sign of a zero is not
  tracked: every divisor in the program below is a difference of two finite numbers,
  a product of non-negative numbers or an array length, and each of these is \<open>+0\<close>
  when it is zero.
\<close>

datatype num = Fin real | PInf | NInf | NaN

definition pow2 :: "int \<Rightarrow> real" where
  "pow2 k = (if 0 \<le> k then 2 ^ nat k else 1 / 2 ^ nat (- k))"

text \<open>\<open>ilog2 x\<close> is the binade of a positive \<open>x\<close>: \<open>2 ^ ilog2 x \<le> x < 2 ^ (ilog2 x + 1)\<close>.\<close>

definition ilog2 :: "real \<Rightarrow> int" where
  "ilog2 x = (if 1 \<le> x then bitlen \<lfloor>x\<rfloor> - 1 else - bitlen (\<lceil>1 / x\<rceil> - 1))"

text \<open>Rounding to the nearest integer, a tie going to the even neighbour.\<close>

definition round_even :: "real \<Rightarrow> int" where
  "round_even z =
     (let r = \<lfloor>z\<rfloor>; d = z - of_int r
      in if d < 1 / 2 then r else if 1 / 2 < d then r + 1
         else if even r then r else r + 1)"

text \<open>
  \<open>fl x\<close> is the binary64 value of the real \<open>x\<close>: 53 significant bits, the least exponent
  \<open>-1074\<close> (gradual underflow), round to nearest with ties to even, and overflow to an
  infinity from \<open>2 ^ 1024 - 2 ^ 970\<close> on.
\<close>

definition fl :: "real \<Rightarrow> num" where
  "fl x =
     (if x = 0 then Fin 0
      else let q = max (ilog2 \<bar>x\<bar> - 52) (- 1074);
               y = of_int (round_even (x / pow2 q)) * pow2 q
           in if 2 ^ 1024 \<le> \<bar>y\<bar> then (if 0 < x then PInf else NInf) else Fin y)"

text \<open>The arithmetic operators \<open>+\<close>, \<open>-\<close>, \<open>*\<close>, \<open>/\<close> of the language.\<close>

fun num_add :: "num \<Rightarrow> num \<Rightarrow> num" where
  "num_add NaN _ = NaN"
| "num_add _ NaN = NaN"
| "num_add PInf NInf = NaN"
| "num_add NInf PInf = NaN"
| "num_add PInf _ = PInf"
| "num_add _ PInf = PInf"
| "num_add NInf _ = NInf"
| "num_add _ NInf = NInf"
| "num_add (Fin a) (Fin b) = fl (a + b)"

fun num_neg :: "num \<Rightarrow> num" where
  "num_neg (Fin a) = Fin (- a)"
| "num_neg PInf = NInf"
| "num_neg NInf = PInf"
| "num_neg NaN = NaN"

definition num_sub :: "num \<Rightarrow> num \<Rightarrow> num" where
  "num_sub a b = num_add a (num_neg b)"

text \<open>\<open>sgn_pos\<close>: is the number positive (a zero counts as \<open>+0\<close>)?\<close>

fun sgn_pos :: "num \<Rightarrow> bool" where
  "sgn_pos (Fin a) = (0 \<le> a)"
| "sgn_pos PInf = True"
| "sgn_pos NInf = False"
| "sgn_pos NaN = True"

definition signed_inf :: "bool \<Rightarrow> num" where
  "signed_inf pos = (if pos then PInf else NInf)"

fun num_mul :: "num \<Rightarrow> num \<Rightarrow> num" where
  "num_mul NaN _ = NaN"
| "num_mul _ NaN = NaN"
| "num_mul (Fin a) (Fin b) = fl (a * b)"
| "num_mul a b =
     (if a = Fin 0 \<or> b = Fin 0 then NaN else signed_inf (sgn_pos a = sgn_pos b))"

fun num_div :: "num \<Rightarrow> num \<Rightarrow> num" where
  "num_div NaN _ = NaN"
| "num_div _ NaN = NaN"
| "num_div (Fin a) (Fin b) =
     (if b = 0 then (if a = 0 then NaN else signed_inf (0 < a)) else fl (a / b))"
| "num_div (Fin a) _ = Fin 0"
| "num_div a (Fin b) = signed_inf (sgn_pos a = (0 \<le> b))"
| "num_div _ _ = NaN"

text \<open>The comparisons \<open>>\<close> and \<open><\<close>: false as soon as an operand is NaN.\<close>

fun num_gt :: "num \<Rightarrow> num \<Rightarrow> bool" where
  "num_gt NaN _ = False"
| "num_gt _ NaN = False"
| "num_gt (Fin a) (Fin b) = (b < a)"
| "num_gt PInf b = (b \<noteq> PInf)"
| "num_gt a NInf = (a \<noteq> NInf)"
| "num_gt _ _ = False"

definition num_lt :: "num \<Rightarrow> num \<Rightarrow> bool" where
  "num_lt a b = num_gt b a"

text \<open>
  A numeric literal of the source text denotes the nearest binary64 value; an integer
  value and an array length are numbers as they are.
\<close>

definition lit :: "real \<Rightarrow> num" where
  "lit x = fl x"

definition num_of_int :: "int \<Rightarrow> num" where
  "num_of_int n = Fin (of_int n)"

definition num_of_nat :: "nat \<Rightarrow> num" where
  "num_of_nat n = Fin (of_nat n)"

subsection \<open>\<open>Math.abs\<close>, \<open>Math.max\<close>, \<open>Math.min\<close>, \<open>Math.round\<close>, \<open>Math.pow\<close>\<close>

fun Math_abs :: "num \<Rightarrow> num" where
  "Math_abs (Fin a) = Fin \<bar>a\<bar>"
| "Math_abs PInf = PInf"
| "Math_abs NInf = PInf"
| "Math_abs NaN = NaN"

text \<open>
  \<open>Math.max(...xs)\<close>: \<open>-Infinity\<close> on no argument, NaN as soon as one argument is NaN,
  the largest argument otherwise; \<open>Math.min\<close> is its mirror image.
\<close>

definition Math_max :: "num list \<Rightarrow> num" where
  "Math_max xs =
     (if NaN \<in> set xs then NaN
      else foldl (\<lambda>highest x. if num_gt x highest then x else highest) NInf xs)"

definition Math_min :: "num list \<Rightarrow> num" where
  "Math_min xs =
     (if NaN \<in> set xs then NaN
      else foldl (\<lambda>lowest x. if num_lt x lowest then x else lowest) PInf xs)"

text \<open>\<open>Math.round\<close> rounds to the nearest integer, a tie going up.\<close>

fun Math_round :: "num \<Rightarrow> num" where
  "Math_round (Fin a) = Fin (of_int \<lfloor>a + 1 / 2\<rfloor>)"
| "Math_round x = x"

definition integral :: "real \<Rightarrow> bool" where
  "integral e = (of_int \<lfloor>e\<rfloor> = e)"

text \<open>
  \<open>Math.pow\<close> follows the case list of the language standard (Number::exponentiate). In
  the last case the standard asks for an implementation-approximated value only, so that
  case is the parameter \<open>approx\<close>: the host's approximation of a finite non-zero base
  raised to a finite non-zero exponent. Both calls of the program have a positive
  literal as the base.
\<close>

fun Math_pow :: "(real \<Rightarrow> real \<Rightarrow> num) \<Rightarrow> num \<Rightarrow> num \<Rightarrow> num" where
  "Math_pow approx b NaN = NaN"
| "Math_pow approx b (Fin e) =
     (if e = 0 then Fin 1
      else case b of
        NaN \<Rightarrow> NaN
      | PInf \<Rightarrow> (if 0 < e then PInf else Fin 0)
      | NInf \<Rightarrow> (if 0 < e then (if integral e \<and> odd \<lfloor>e\<rfloor> then NInf else PInf) else Fin 0)
      | Fin a \<Rightarrow>
          (if a = 0 then (if 0 < e then Fin 0 else PInf)
           else if a < 0 \<and> \<not> integral e then NaN
           else approx a e))"
| "Math_pow approx b PInf =
     (case b of
        NaN \<Rightarrow> NaN
      | Fin a \<Rightarrow> (if 1 < \<bar>a\<bar> then PInf else if \<bar>a\<bar> = 1 then NaN else Fin 0)
      | _ \<Rightarrow> PInf)"
| "Math_pow approx b NInf =
     (case b of
        NaN \<Rightarrow> NaN
      | Fin a \<Rightarrow> (if 1 < \<bar>a\<bar> then Fin 0 else if \<bar>a\<bar> = 1 then NaN else PInf)
      | _ \<Rightarrow> Fin 0)"

text \<open>
  One host approximation, the correctly rounded power; it instantiates \<open>approx\<close>
  wherever a closed example is evaluated.
\<close>

definition pow_nearest :: "real \<Rightarrow> real \<Rightarrow> num" where
  "pow_nearest a e =
     (if 0 < a then fl (a powr e)
      else if 0 \<le> e then fl (a ^ nat \<lfloor>e\<rfloor>) else fl (1 / a ^ nat (- \<lfloor>e\<rfloor>)))"

subsection \<open>\<open>parseInt\<close>\<close>

text \<open>
  \<open>parseInt(string)\<close> with no radix: leading white space is dropped, then an optional
  sign, then an optional \<open>0x\<close>/\<open>0X\<close> that selects radix 16; the longest run of digits of
  the radix is read and the rest is ignored; no digit at all gives NaN. The result is
  the binary64 value nearest to the integer read (beyond 20 significant decimal digits
  the standard lets an implementation read the further digits as zeros; the integer is
  read exactly here). Characters are bytes here, so only the ASCII white space of the
  language is recognised.
\<close>

definition StrWhiteSpaceChar :: "char \<Rightarrow> bool" where
  "StrWhiteSpaceChar c = ((of_char c :: nat) \<in> {9, 10, 11, 12, 13, 32})"

definition digit_value :: "char \<Rightarrow> int option" where
  "digit_value c =
     (let n = (of_char c :: int)
      in if 48 \<le> n \<and> n \<le> 57 then Some (n - 48)
         else if 97 \<le> n \<and> n \<le> 122 then Some (n - 87)
         else if 65 \<le> n \<and> n \<le> 90 then Some (n - 55)
         else None)"

definition radix_digit :: "int \<Rightarrow> char \<Rightarrow> bool" where
  "radix_digit R c = (case digit_value c of Some d \<Rightarrow> d < R | None \<Rightarrow> False)"

definition radix_value :: "int \<Rightarrow> string \<Rightarrow> int" where
  "radix_value R Z =
     foldl (\<lambda>acc c. acc * R + (case digit_value c of Some d \<Rightarrow> d | None \<Rightarrow> 0)) 0 Z"

definition parseInt :: "string \<Rightarrow> num" where
  "parseInt string =
     (let S = dropWhile StrWhiteSpaceChar string;
          sign = (if take 1 S = ''-'' then - 1 else 1);
          S1 = (if take 1 S = ''+'' \<or> take 1 S = ''-'' then drop 1 S else S);
          hex = (take 2 S1 = ''0x'' \<or> take 2 S1 = ''0X'');
          R = (if hex then 16 else 10);
          S2 = (if hex then drop 2 S1 else S1);
          Z = takeWhile (radix_digit R) S2
      in if Z = [] then NaN else fl (of_int (sign * radix_value R Z)))"

text \<open>The decimal numeral of an integer, the form in which the data carries \<open>tick_cumulative\<close>.\<close>

definition digit_char :: "nat \<Rightarrow> char" where
  "digit_char d = ''0123456789'' ! d"

fun dec_nat :: "nat \<Rightarrow> string" where
  "dec_nat n =
     (if n < 10 then [digit_char n] else dec_nat (n div 10) @ [digit_char (n mod 10)])"

definition dec :: "int \<Rightarrow> string" where
  "dec c = (if c < 0 then CHR ''-'' # dec_nat (nat (- c)) else dec_nat (nat c))"

section \<open>Data\<close>

text \<open>
  An entry of \<open>observationState.observations.data\<close>. \<open>block_timestamp\<close> is a number
  whose value is an integer (seconds), and the field holds that value; \<open>tick_cumulative\<close>
  is a string, in the data a decimal integer. The \<open>padding\<close> field is never read.
\<close>

record observation =
  block_timestamp :: int
  tick_cumulative :: string

text \<open>
  The three \<open>data\<close> fields of the pool state that the program reads, each a number whose
  value is an integer (a numeric string in their place converts to the same number).
\<close>

record poolState =
  tick_current :: int
  mint_decimals_0 :: int
  mint_decimals_1 :: int

datatype riskLevel = LOW | MEDIUM | HIGH | CRITICAL

datatype factor =
    EXTREME_PRICE_DIFF | HIGH_PRICE_DIFF | MODERATE_PRICE_DIFF | RAPID_PRICE_CHANGE
  | TICK_SPIKE | INSUFFICIENT_DATA | REPETITIVE_PATTERNS | NORMAL_MOVEMENT

text \<open>
  What a call can throw: the \<open>TypeError\<close> of reading a property of \<open>undefined\<close>, and
  \<open>new Error(message)\<close>.
\<close>

datatype error = TypeError | Error string

definition InsufficientData :: error where
  "InsufficientData = Error ''Need at least 2 observations to calculate TWAP''"

section \<open>The manipulation scorer\<close>

definition msg_extreme :: string where
  "msg_extreme = ''Extreme price difference detected! Possible pump/dump or flash loan attack''"

definition msg_high :: string where
  "msg_high = ''Very high price difference - investigate for manipulation''"

definition msg_rapid :: string where
  "msg_rapid = ''Rapid price change in short timeframe - possible manipulation''"

definition msg_short :: string where
  "msg_short = ''Very short observation period - results may not be reliable''"

text \<open>\<open>warning || message\<close>: \<open>null\<close> and the empty string are falsy.\<close>

definition or_else :: "string option \<Rightarrow> string \<Rightarrow> string option" where
  "or_else w m = (case w of None \<Rightarrow> Some m | Some s \<Rightarrow> if s = [] then Some m else Some s)"

definition calculateConfidence :: "factor list \<Rightarrow> num \<Rightarrow> int" where
  "calculateConfidence fs timePeriodHours =
     (let confidence = 50;
          confidence = (if num_gt timePeriodHours (Fin 1) then confidence + 20 else confidence);
          confidence = (if num_gt timePeriodHours (Fin 6) then confidence + 15 else confidence);
          confidence = (if NORMAL_MOVEMENT \<in> set fs then confidence + 15 else confidence);
          confidence = (if EXTREME_PRICE_DIFF \<in> set fs then confidence + 25 else confidence);
          confidence = (if INSUFFICIENT_DATA \<in> set fs then confidence - 30 else confidence)
      in min (max confidence 0) 100)"

text \<open>The recommendation texts, without the emoji that starts each of them in the source.\<close>

definition getRecommendations :: "riskLevel \<Rightarrow> factor list \<Rightarrow> string list" where
  "getRecommendations lv fs =
     (case lv of
        CRITICAL \<Rightarrow>
          [''DO NOT TRADE - High manipulation risk'', ''Wait for market stabilization'',
           ''Investigate recent transactions'']
      | HIGH \<Rightarrow>
          [''Trade with extreme caution'', ''Use smaller position sizes'',
           ''Wait for longer observation period'']
      | MEDIUM \<Rightarrow> [''Consider market volatility'', ''Cross-check with other indicators'']
      | LOW \<Rightarrow> [''Normal market conditions'', ''Safe to trade with normal risk management''])
     @ (if INSUFFICIENT_DATA \<in> set fs then [''Collect more historical data''] else [])"

text \<open>
  The loop of factor 3 over the consecutive pairs: a pair contributes its tick velocity
  when its time difference is positive.
\<close>

fun tickMovements :: "observation list \<Rightarrow> num list" where
  "tickMovements (prev # cur # rest) =
     (let timeDiff = num_sub (num_of_int (block_timestamp cur)) (num_of_int (block_timestamp prev));
          tickDiff = num_sub (parseInt (tick_cumulative cur)) (parseInt (tick_cumulative prev))
      in (if num_gt timeDiff (Fin 0) then [num_div tickDiff timeDiff] else [])
         @ tickMovements (cur # rest))"
| "tickMovements _ = []"

text \<open>The loop of factor 5: the rounded thousandfold difference of each consecutive pair.\<close>

fun ratios :: "num list \<Rightarrow> num list" where
  "ratios (prev # cur # rest) =
     Math_round (num_mul (num_sub cur prev) (Fin 1000)) # ratios (cur # rest)"
| "ratios _ = []"

text \<open>
  The scorer threads three variables through its factor checks: the factor list, the
  risk level and the warning. Each of \<open>factor1\<close> to \<open>factor5\<close> is the block of the source
  under the comment of that number, \<open>no_factor\<close> the block behind them. In factor 3
  \<open>minMovement\<close> is computed and never read.
\<close>

record scorer =
  s_factors :: "factor list"
  s_riskLevel :: riskLevel
  s_warning :: "string option"

definition factor1 :: "num \<Rightarrow> scorer \<Rightarrow> scorer" where
  "factor1 priceDiffPercent s =
     (if num_gt priceDiffPercent (Fin 50) then
        s\<lparr>s_factors := s_factors s @ [EXTREME_PRICE_DIFF], s_riskLevel := CRITICAL,
          s_warning := Some msg_extreme\<rparr>
      else if num_gt priceDiffPercent (Fin 30) then
        s\<lparr>s_factors := s_factors s @ [HIGH_PRICE_DIFF], s_riskLevel := HIGH,
          s_warning := Some msg_high\<rparr>
      else if num_gt priceDiffPercent (Fin 15) then
        s\<lparr>s_factors := s_factors s @ [MODERATE_PRICE_DIFF], s_riskLevel := MEDIUM\<rparr>
      else s)"

definition factor2 :: "num \<Rightarrow> num \<Rightarrow> scorer \<Rightarrow> scorer" where
  "factor2 priceDiffPercent timePeriodHours s =
     (if num_lt timePeriodHours (Fin 1) \<and> num_gt priceDiffPercent (Fin 20) then
        s\<lparr>s_factors := s_factors s @ [RAPID_PRICE_CHANGE],
          s_riskLevel := (if s_riskLevel s = LOW then HIGH else s_riskLevel s),
          s_warning := or_else (s_warning s) msg_rapid\<rparr>
      else s)"

definition factor3 :: "observation list \<Rightarrow> scorer \<Rightarrow> scorer" where
  "factor3 observations s =
     (let ms = tickMovements observations;
          avgTickMovement = num_div (foldl num_add (Fin 0) ms) (num_of_nat (length ms));
          maxMovement = Math_max (map Math_abs ms);
          minMovement = Math_min (map Math_abs ms)
      in if num_gt maxMovement (num_mul (Math_abs avgTickMovement) (Fin 10)) then
           s\<lparr>s_factors := s_factors s @ [TICK_SPIKE],
             s_riskLevel := (if s_riskLevel s = LOW \<or> s_riskLevel s = MEDIUM then HIGH
                             else s_riskLevel s)\<rparr>
         else s)"

definition factor4 :: "num \<Rightarrow> scorer \<Rightarrow> scorer" where
  "factor4 timePeriodHours s =
     (if num_lt timePeriodHours (lit (1 / 10)) then
        s\<lparr>s_factors := s_factors s @ [INSUFFICIENT_DATA],
          s_warning := or_else (s_warning s) msg_short\<rparr>
      else s)"

definition factor5 :: "observation list \<Rightarrow> scorer \<Rightarrow> scorer" where
  "factor5 observations s =
     (let tickCumulatives = map (\<lambda>obs. parseInt (tick_cumulative obs)) observations;
          uniqueRatios = remdups (ratios tickCumulatives)
      in if num_lt (num_of_nat (length uniqueRatios))
                   (num_mul (num_of_nat (length observations)) (lit (3 / 10))) then
           s\<lparr>s_factors := s_factors s @ [REPETITIVE_PATTERNS],
             s_riskLevel := (if s_riskLevel s = LOW then MEDIUM else s_riskLevel s)\<rparr>
         else s)"

definition no_factor :: "scorer \<Rightarrow> scorer" where
  "no_factor s = (if s_factors s = [] then s\<lparr>s_factors := [NORMAL_MOVEMENT]\<rparr> else s)"

text \<open>The object the scorer returns.\<close>

record manipulationRisk =
  level :: riskLevel
  factors :: "factor list"
  warning :: "string option"
  confidence :: int
  recommendations :: "string list"

definition detectManipulation :: "num \<Rightarrow> num \<Rightarrow> observation list \<Rightarrow> manipulationRisk" where
  "detectManipulation priceDiffPercent timePeriodHours observations =
     (let s = \<lparr>s_factors = [], s_riskLevel = LOW, s_warning = None\<rparr>;
          s = factor1 priceDiffPercent s;
          s = factor2 priceDiffPercent timePeriodHours s;
          s = factor3 observations s;
          s = factor4 timePeriodHours s;
          s = factor5 observations s;
          s = no_factor s
      in \<lparr>level = s_riskLevel s, factors = s_factors s, warning = s_warning s,
          confidence = calculateConfidence (s_factors s) timePeriodHours,
          recommendations = getRecommendations (s_riskLevel s) (s_factors s)\<rparr>)"

section \<open>The TWAP engine\<close>

text \<open>The object the engine returns.\<close>

record twapResult =
  twapTick :: num
  twapPrice :: num
  currentPrice :: num
  timePeriodHours :: num
  observationCount :: nat
  priceDifferencePercent :: num
  manipulationAnalysis :: manipulationRisk

text \<open>The callback of \<open>filter\<close> and the comparator of \<open>sort\<close>.\<close>

definition valid_observation :: "observation \<Rightarrow> bool" where
  "valid_observation obs = num_gt (num_of_int (block_timestamp obs)) (Fin 0)"

definition by_timestamp :: "observation \<Rightarrow> observation \<Rightarrow> num" where
  "by_timestamp a b = num_sub (num_of_int (block_timestamp a)) (num_of_int (block_timestamp b))"

text \<open>
  \<open>Array.prototype.sort\<close> is stable, and a comparator result that is NaN counts as zero.
  For a comparator that orders the elements consistently the outcome does not depend on
  the algorithm; it is computed here by insertion from the right, an element going
  behind exactly the elements it compares greater than.
\<close>

fun insert_sorted :: "('a \<Rightarrow> 'a \<Rightarrow> num) \<Rightarrow> 'a \<Rightarrow> 'a list \<Rightarrow> 'a list" where
  "insert_sorted cmp x [] = [x]"
| "insert_sorted cmp x (y # ys) =
     (if num_gt (cmp x y) (Fin 0) then y # insert_sorted cmp x ys else x # y # ys)"

definition Array_sort :: "('a \<Rightarrow> 'a \<Rightarrow> num) \<Rightarrow> 'a list \<Rightarrow> 'a list" where
  "Array_sort cmp xs = foldr (insert_sorted cmp) xs []"

text \<open>
  \<open>calculateTWAP\<close> and \<open>calculateTWAPCLI\<close> have the same text. \<open>twap_body\<close> is that text
  from the two log lines behind the sort on, as a function of the sorted array. The
  second log line reads \<open>validObservations[0].block_timestamp\<close> before the length is
  checked, which throws a \<open>TypeError\<close> on the empty array; no other log line can throw.
\<close>

definition twap_body :: "(real \<Rightarrow> real \<Rightarrow> num) \<Rightarrow> poolState \<Rightarrow> observation list \<Rightarrow> error + twapResult" where
  "twap_body approx pool validObservations =
     (if validObservations = [] then Inl TypeError
      else if length validObservations < 2 then Inl InsufficientData
      else
        let currentTick = num_of_int (tick_current pool);
            oldestObs = hd validObservations;
            newestObs = last validObservations;
            timeDiff = num_sub (num_of_int (block_timestamp newestObs))
                               (num_of_int (block_timestamp oldestObs));
            tickCumulativeDiff = num_sub (parseInt (tick_cumulative newestObs))
                                         (parseInt (tick_cumulative oldestObs));
            twapTick' = num_div tickCumulativeDiff timeDiff;
            price = Math_pow approx (lit (10001 / 10000)) twapTick';
            decimals0 = num_of_int (mint_decimals_0 pool);
            decimals1 = num_of_int (mint_decimals_1 pool);
            decimalAdjustment = Math_pow approx (Fin 10) (num_sub decimals1 decimals0);
            adjustedPrice = num_mul price decimalAdjustment;
            currentPrice' = num_mul (Math_pow approx (lit (10001 / 10000)) currentTick)
                                    decimalAdjustment;
            priceDiffPercent =
              Math_abs (num_mul (num_div (num_sub adjustedPrice currentPrice') currentPrice')
                                (Fin 100));
            manipulationRisk =
              detectManipulation priceDiffPercent (num_div timeDiff (Fin 3600)) validObservations
        in Inr \<lparr>twapTick = twapTick', twapPrice = adjustedPrice, currentPrice = currentPrice',
                timePeriodHours = num_div timeDiff (Fin 3600),
                observationCount = length validObservations,
                priceDifferencePercent = priceDiffPercent,
                manipulationAnalysis = manipulationRisk\<rparr>)"

definition calculateTWAP :: "(real \<Rightarrow> real \<Rightarrow> num) \<Rightarrow> poolState \<Rightarrow> observation list \<Rightarrow> error + twapResult" where
  "calculateTWAP approx pool observations =
     (let validObservations = filter valid_observation observations;
          validObservations = Array_sort by_timestamp validObservations
      in twap_body approx pool validObservations)"

definition calculateTWAPCLI :: "(real \<Rightarrow> real \<Rightarrow> num) \<Rightarrow> poolState \<Rightarrow> observation list \<Rightarrow> error + twapResult" where
  "calculateTWAPCLI approx pool observations =
     (let validObservations = filter valid_observation observations;
          validObservations = Array_sort by_timestamp validObservations
      in twap_body approx pool validObservations)"

subsection \<open>The arrays as objects\<close>

text \<open>
  The caller's array and the array that \<open>filter\<close> returns are objects on the heap.
  A heap is the list of the arrays allocated so far and a reference is an index into
  it: \<open>filter\<close> allocates a new array behind the existing ones, \<open>sort\<close> overwrites the
  array it is called on.
\<close>

type_synonym heap = "observation list list"

definition Array_filter_new :: "(observation \<Rightarrow> bool) \<Rightarrow> nat \<Rightarrow> heap \<Rightarrow> nat \<times> heap" where
  "Array_filter_new p a h = (length h, h @ [filter p (h ! a)])"

definition Array_sort_at :: "(observation \<Rightarrow> observation \<Rightarrow> num) \<Rightarrow> nat \<Rightarrow> heap \<Rightarrow> heap" where
  "Array_sort_at cmp a h = h[a := Array_sort cmp (h ! a)]"

definition calculateTWAP_heap :: "(real \<Rightarrow> real \<Rightarrow> num) \<Rightarrow> poolState \<Rightarrow> nat \<Rightarrow> heap \<Rightarrow> (error + twapResult) \<times> heap" where
  "calculateTWAP_heap approx pool observations h =
     (let (validObservations, h) = Array_filter_new valid_observation observations h;
          h = Array_sort_at by_timestamp validObservations h
      in (twap_body approx pool (h ! validObservations), h))"

definition calculateTWAPCLI_heap :: "(real \<Rightarrow> real \<Rightarrow> num) \<Rightarrow> poolState \<Rightarrow> nat \<Rightarrow> heap \<Rightarrow> (error + twapResult) \<times> heap" where
  "calculateTWAPCLI_heap approx pool observations h =
     (let (validObservations, h) = Array_filter_new valid_observation observations h;
          h = Array_sort_at by_timestamp validObservations h
      in (twap_body approx pool (h ! validObservations), h))"

section \<open>Notions used in the properties\<close>

text \<open>The comparison \<open><=\<close> of the language restricted to what the properties need.\<close>

definition num_le :: "num \<Rightarrow> num \<Rightarrow> bool" where
  "num_le a b = (a \<noteq> NaN \<and> b \<noteq> NaN \<and> \<not> num_gt a b)"

text \<open>The order of the risk levels.\<close>

fun rank :: "riskLevel \<Rightarrow> nat" where
  "rank LOW = 0"
| "rank MEDIUM = 1"
| "rank HIGH = 2"
| "rank CRITICAL = 3"

text \<open>The warning that goes with a factor list, by priority.\<close>

definition first_warning :: "factor list \<Rightarrow> string option" where
  "first_warning fs =
     (if EXTREME_PRICE_DIFF \<in> set fs then Some msg_extreme
      else if HIGH_PRICE_DIFF \<in> set fs then Some msg_high
      else if RAPID_PRICE_CHANGE \<in> set fs then Some msg_rapid
      else if INSUFFICIENT_DATA \<in> set fs then Some msg_short
      else None)"

text \<open>The variables of the scorer as they are initialised.\<close>

definition scorer0 :: scorer where
  "scorer0 = \<lparr>s_factors = [], s_riskLevel = LOW, s_warning = None\<rparr>"

text \<open>The array both functions work on: the observations that pass the filter, sorted.\<close>

definition validObservations :: "observation list \<Rightarrow> observation list" where
  "validObservations obs = Array_sort by_timestamp (filter valid_observation obs)"

text \<open>The characters of a decimal numeral.\<close>

definition is_digit :: "char \<Rightarrow> bool" where
  "is_digit c = (\<exists>d<10. c = digit_char d)"

section \<open>Rounding\<close>

lemma pow2_powi: "pow2 k = 2 powi k"
  by (simp add: pow2_def power_int_def inverse_eq_divide power_one_over)

lemma pow2_pos: "0 < pow2 k"
  by (simp add: pow2_powi)

lemma pow2_add: "pow2 (a + b) = pow2 a * pow2 b"
  by (simp add: pow2_powi power_int_add)

lemma pow2_mono: "a \<le> b \<Longrightarrow> pow2 a \<le> pow2 b"
  by (simp add: pow2_powi power_int_increasing)

lemma pow2_nat: "pow2 (int n) = 2 ^ n"
  by (simp add: pow2_def)

lemma ilog2_bounds:
  assumes "0 < x"
  shows "pow2 (ilog2 x) \<le> x" and "x < pow2 (ilog2 x + 1)"
proof -
  have "pow2 (ilog2 x) \<le> x \<and> x < pow2 (ilog2 x + 1)"
  proof (cases "1 \<le> x")
    case True
    define n where "n = \<lfloor>x\<rfloor>"
    have n: "0 < n" "of_int n \<le> x" "x < of_int n + 1"
      using True by (simp_all add: n_def)
    have b: "1 \<le> bitlen n" using n(1) by (simp add: bitlen_alt_def)
    from bitlen_bounds [OF n(1)]
    have lo: "(2::int) ^ nat (bitlen n - 1) \<le> n" and hi: "n < 2 ^ nat (bitlen n)" by simp_all
    have e: "ilog2 x = bitlen n - 1" using True by (simp add: ilog2_def n_def)
    have "pow2 (bitlen n - 1) = of_int (2 ^ nat (bitlen n - 1))"
      using b by (simp add: pow2_def)
    also have "\<dots> \<le> of_int n" using lo by (simp only: of_int_le_iff)
    finally have 1: "pow2 (ilog2 x) \<le> x" using n(2) e by simp
    have "of_int n + 1 \<le> (of_int (2 ^ nat (bitlen n)) :: real)"
      using hi by (metis of_int_1 of_int_add of_int_le_iff zless_imp_add1_zle)
    also have "\<dots> = pow2 (bitlen n)" using b by (simp add: pow2_def)
    finally have 2: "x < pow2 (ilog2 x + 1)" using n(3) e by simp
    from 1 2 show ?thesis ..
  next
    case False
    define m where "m = \<lceil>1 / x\<rceil> - 1"
    have x1: "1 < 1 / x" using False assms by simp
    then have "2 \<le> \<lceil>1 / x\<rceil>" by linarith
    then have m: "0 < m" by (simp add: m_def)
    have mx: "of_int m < 1 / x" "1 / x \<le> of_int m + 1"
      unfolding m_def by linarith+
    have b: "1 \<le> bitlen m" using m by (simp add: bitlen_alt_def)
    from bitlen_bounds [OF m]
    have lo: "(2::int) ^ nat (bitlen m - 1) \<le> m" and hi: "m < 2 ^ nat (bitlen m)" by simp_all
    have e: "ilog2 x = - bitlen m" using False by (simp add: ilog2_def m_def)
    have "of_int m + 1 \<le> (of_int (2 ^ nat (bitlen m)) :: real)"
      using hi by (metis of_int_1 of_int_add of_int_le_iff zless_imp_add1_zle)
    then have "1 / x \<le> 2 ^ nat (bitlen m)" using mx(2) by simp
    then have "1 \<le> 2 ^ nat (bitlen m) * x" using assms by (simp add: pos_divide_le_eq)
    then have "1 / 2 ^ nat (bitlen m) \<le> x" by (simp add: pos_divide_le_eq mult.commute)
    then have 1: "pow2 (ilog2 x) \<le> x" using b e by (simp add: pow2_def)
    have "(of_int (2 ^ nat (bitlen m - 1)) :: real) \<le> of_int m" using lo by (simp only: of_int_le_iff)
    then have "(2::real) ^ nat (bitlen m - 1) \<le> of_int m" by simp
    then have "2 ^ nat (bitlen m - 1) < 1 / x" using mx(1) by linarith
    then have "2 ^ nat (bitlen m - 1) * x < 1" using assms by (simp add: pos_less_divide_eq)
    then have "x < 1 / 2 ^ nat (bitlen m - 1)" by (simp add: pos_less_divide_eq mult.commute)
    moreover have "pow2 (- bitlen m + 1) = 1 / 2 ^ nat (bitlen m - 1)"
      using b by (simp add: pow2_def)
    ultimately have 2: "x < pow2 (ilog2 x + 1)" using e by simp
    from 1 2 show ?thesis ..
  qed
  then show "pow2 (ilog2 x) \<le> x" and "x < pow2 (ilog2 x + 1)" by simp_all
qed

lemma round_even_bounds: "\<lfloor>z\<rfloor> \<le> round_even z" "round_even z \<le> \<lfloor>z\<rfloor> + 1"
  by (simp_all add: round_even_def Let_def)

lemma round_even_of_int: "round_even (of_int n) = n"
  by (simp add: round_even_def Let_def)

lemma round_even_nonpos: "z \<le> 0 \<Longrightarrow> round_even z \<le> 0"
proof -
  assume z: "z \<le> 0"
  show ?thesis
  proof (cases "z = 0")
    case True then show ?thesis using round_even_of_int [of 0] by simp
  next
    case False
    then have "z < 0" using z by simp
    then have "\<lfloor>z\<rfloor> < 0" by linarith
    then show ?thesis using round_even_bounds(2) [of z] by linarith
  qed
qed

lemma round_even_nonneg: "0 \<le> z \<Longrightarrow> 0 \<le> round_even z"
  using round_even_bounds(1) [of z] by (smt (verit) zero_le_floor)

lemma fl_nonpos:
  assumes "x \<le> 0"
  shows "fl x = NInf \<or> (\<exists>y. fl x = Fin y \<and> y \<le> 0)"
proof (cases "x = 0")
  case True then show ?thesis by (simp add: fl_def)
next
  case False
  define q where "q = max (ilog2 \<bar>x\<bar> - 52) (- 1074)"
  have "x / pow2 q \<le> 0" using assms pow2_pos [of q] by (simp add: divide_nonpos_pos)
  then have "round_even (x / pow2 q) \<le> 0" by (rule round_even_nonpos)
  then have "of_int (round_even (x / pow2 q)) * pow2 q \<le> 0"
    using pow2_pos [of q] by (simp add: mult_le_0_iff)
  then show ?thesis using False assms by (simp add: fl_def Let_def q_def)
qed

lemma fl_ge_1:
  assumes "1 \<le> x"
  shows "fl x = PInf \<or> (\<exists>y. fl x = Fin y \<and> 1 \<le> y)"
proof -
  have x0: "0 < x" "x \<noteq> 0" "\<bar>x\<bar> = x" using assms by simp_all
  define e where "e = ilog2 x"
  have "1 < pow2 (e + 1)" using ilog2_bounds(2) [OF x0(1)] assms by (simp add: e_def)
  then have e0: "0 \<le> e"
    by (smt (verit) pow2_mono pow2_def nat_0_iff power_0 zero_le_imp_eq_int)
  define q where "q = e - 52"
  have q: "max (ilog2 \<bar>x\<bar> - 52) (- 1074) = q" using e0 by (simp add: q_def e_def x0)
  have pe: "pow2 e = pow2 52 * pow2 q" by (simp add: q_def flip: pow2_add)
  then have "pow2 52 * pow2 q \<le> x" using ilog2_bounds(1) [OF x0(1)] by (simp add: e_def)
  then have "pow2 52 \<le> x / pow2 q" using pow2_pos [of q] by (simp add: pos_le_divide_eq)
  then have "(2::real) ^ 52 \<le> x / pow2 q" by (simp add: pow2_def)
  then have "(2::int) ^ 52 \<le> \<lfloor>x / pow2 q\<rfloor>" by (simp add: le_floor_iff)
  then have r: "(2::int) ^ 52 \<le> round_even (x / pow2 q)"
    using round_even_bounds(1) [of "x / pow2 q"] by linarith
  have "pow2 e \<le> of_int (round_even (x / pow2 q)) * pow2 q"
  proof -
    have "pow2 52 = of_int (2 ^ 52)" by (simp add: pow2_def)
    then have "pow2 e = of_int (2 ^ 52) * pow2 q" using pe by simp
    also have "\<dots> \<le> of_int (round_even (x / pow2 q)) * pow2 q"
    proof (rule mult_right_mono)
      show "real_of_int (2 ^ 52) \<le> real_of_int (round_even (x / pow2 q))"
        using r by (simp only: of_int_le_iff)
      show "0 \<le> pow2 q" using pow2_pos [of q] by simp
    qed
    finally show ?thesis .
  qed
  moreover have "1 \<le> pow2 e" using e0 pow2_mono [of 0 e] by (simp add: pow2_def)
  ultimately have "1 \<le> of_int (round_even (x / pow2 q)) * pow2 q" by linarith
  then show ?thesis using x0 q by (simp add: fl_def Let_def)
qed

lemma num_sub_Fin: "num_sub (Fin a) (Fin b) = fl (a - b)"
  by (simp add: num_sub_def)

lemma timestamp_diff_gt:
  "num_gt (num_sub (num_of_int a) (num_of_int b)) (Fin 0) \<longleftrightarrow> b < a"
proof (cases "b < a")
  case True
  then have "1 \<le> real_of_int a - real_of_int b" by linarith
  from fl_ge_1 [OF this] True show ?thesis
    by (auto simp: num_sub_Fin num_of_int_def)
next
  case False
  then have "real_of_int a - real_of_int b \<le> 0" by linarith
  from fl_nonpos [OF this] False show ?thesis
    by (auto simp: num_sub_Fin num_of_int_def)
qed

lemma ilog2_nonneg: "1 \<le> x \<Longrightarrow> 0 \<le> ilog2 x"
  by (simp add: ilog2_def bitlen_alt_def)

lemma pow2_strict_mono: "a < b \<Longrightarrow> pow2 a < pow2 b"
  by (simp add: pow2_powi power_int_strict_increasing)

lemma fl_exact:
  assumes "x \<noteq> 0" "\<bar>x\<bar> < 2 ^ 1024"
    and "x / pow2 (max (ilog2 \<bar>x\<bar> - 52) (- 1074)) = of_int k"
  shows "fl x = Fin x"
proof -
  define q where "q = max (ilog2 \<bar>x\<bar> - 52) (- 1074)"
  define y where "y = of_int (round_even (x / pow2 q)) * pow2 q"
  have k: "x / pow2 q = of_int k" using assms(3) by (simp add: q_def)
  have "y = of_int k * pow2 q" by (simp only: y_def k round_even_of_int)
  also have "\<dots> = x / pow2 q * pow2 q" by (simp only: k)
  also have "\<dots> = x" using pow2_pos [of q] by simp
  finally have y: "y = x" .
  have "fl x = (if 2 ^ 1024 \<le> \<bar>y\<bar> then (if 0 < x then PInf else NInf) else Fin y)"
    using assms(1) by (simp add: fl_def Let_def q_def y_def)
  also have "\<dots> = Fin x" using assms(2) by (simp only: y) simp
  finally show ?thesis .
qed

lemma fl_int_exact:
  assumes "\<bar>n\<bar> \<le> 2 ^ 53"
  shows "fl (of_int n) = Fin (of_int n)"
proof (cases "n = 0")
  case True then show ?thesis by (simp add: fl_def)
next
  case False
  define x :: real where "x = of_int n"
  define e where "e = ilog2 \<bar>x\<bar>"
  have "1 \<le> \<bar>n\<bar>" using False by linarith
  then have "real_of_int 1 \<le> real_of_int \<bar>n\<bar>" by (simp only: of_int_le_iff)
  then have ax1: "1 \<le> \<bar>x\<bar>" by (simp add: x_def)
  have "real_of_int \<bar>n\<bar> \<le> real_of_int (2 ^ 53)" using assms by (simp only: of_int_le_iff)
  then have ax2: "\<bar>x\<bar> \<le> 2 ^ 53" by (simp add: x_def)
  note ax = ax1 ax2
  have e0: "0 \<le> e" using ax(1) by (simp add: e_def ilog2_nonneg)
  have e_le: "pow2 e \<le> \<bar>x\<bar>" unfolding e_def by (rule ilog2_bounds(1)) (use ax1 in linarith)
  then have "pow2 e \<le> 2 ^ 53" using ax2 by linarith
  then have e53: "e \<le> 53"
  proof -
    { assume "54 \<le> e"
      then have "pow2 54 \<le> pow2 e" by (rule pow2_mono)
      then have False using \<open>pow2 e \<le> 2 ^ 53\<close> by (simp add: pow2_def) }
    then show ?thesis by (cases "54 \<le> e") simp_all
  qed
  have q: "max (e - 52) (- 1074) = e - 52" using e0 by simp
  have "\<exists>k. x / pow2 (e - 52) = of_int k"
  proof (cases "e \<le> 52")
    case True
    then have "pow2 (e - 52) = 1 / 2 ^ nat (52 - e)" by (simp add: pow2_def)
    then have "x / pow2 (e - 52) = of_int (n * 2 ^ nat (52 - e))" by (simp add: x_def)
    then show ?thesis ..
  next
    case False
    then have e: "e = 53" using e53 by simp
    then have "2 ^ 53 \<le> \<bar>x\<bar>" using e_le by (simp add: pow2_def)
    then have "\<bar>x\<bar> = 2 ^ 53" using ax by simp
    then have "x = 2 ^ 53 \<or> x = - (2 ^ 53)" by linarith
    then have "x / pow2 (e - 52) = of_int (2 ^ 52) \<or> x / pow2 (e - 52) = of_int (- (2 ^ 52))"
      using e by (auto simp: pow2_def)
    then show ?thesis by blast
  qed
  then obtain k where "x / pow2 (max (ilog2 \<bar>x\<bar> - 52) (- 1074)) = of_int k"
    using q by (auto simp: e_def)
  moreover have "x \<noteq> 0" using ax by auto
  moreover have "\<bar>x\<bar> < 2 ^ 1024"
  proof -
    have "(2::real) ^ 53 < 2 ^ 1024" by (rule power_strict_increasing) simp_all
    then show ?thesis using ax(2) by linarith
  qed
  ultimately have "fl x = Fin x" by (rule fl_exact [rotated 2])
  then show ?thesis by (simp add: x_def)
qed

lemma fl_underflow:
  assumes "0 < x" "x \<le> pow2 (- 1075)"
  shows "fl x = Fin 0"
proof -
  have "pow2 (ilog2 x) \<le> pow2 (- 1075)" using ilog2_bounds(1) [OF assms(1)] assms(2) by simp
  then have "ilog2 x \<le> - 1075"
    using pow2_strict_mono [of "- 1075" "ilog2 x"] by (cases "ilog2 x \<le> - 1075") simp_all
  then have q: "max (ilog2 \<bar>x\<bar> - 52) (- 1074) = - 1074" using assms(1) by simp
  have "pow2 (- 1075) = pow2 (- 1074) * (1 / 2)"
    by (simp add: pow2_def)
  then have z: "0 < x / pow2 (- 1074)" "x / pow2 (- 1074) \<le> 1 / 2"
    using assms pow2_pos [of "- 1074"] by (simp_all add: pos_divide_le_eq mult.commute)
  then have "\<lfloor>x / pow2 (- 1074)\<rfloor> = 0" by linarith
  then have "round_even (x / pow2 (- 1074)) = 0" using z by (simp add: round_even_def Let_def)
  then show ?thesis using assms(1) q by (simp add: fl_def Let_def)
qed

text \<open>The rules that evaluate \<open>fl\<close> on a numeral.\<close>

lemmas fl_eval = fl_def ilog2_def round_even_def pow2_def compute_bitlen Let_def

section \<open>\<open>parseInt\<close> on decimal numerals\<close>

declare dec_nat.simps [simp del]

lemma digit_char_props:
  assumes "d < 10"
  shows "digit_value (digit_char d) = Some (int d)"
    and "\<not> StrWhiteSpaceChar (digit_char d)"
    and "digit_char d \<noteq> CHR ''-''" and "digit_char d \<noteq> CHR ''+''"
    and "digit_char d \<noteq> CHR ''x''" and "digit_char d \<noteq> CHR ''X''"
proof -
  have "d = 0 \<or> d = 1 \<or> d = 2 \<or> d = 3 \<or> d = 4 \<or> d = 5 \<or> d = 6 \<or> d = 7 \<or> d = 8 \<or> d = 9"
    using assms by arith
  then show "digit_value (digit_char d) = Some (int d)"
    and "\<not> StrWhiteSpaceChar (digit_char d)"
    and "digit_char d \<noteq> CHR ''-''" and "digit_char d \<noteq> CHR ''+''"
    and "digit_char d \<noteq> CHR ''x''" and "digit_char d \<noteq> CHR ''X''"
    by (auto simp: digit_char_def digit_value_def StrWhiteSpaceChar_def)
qed

lemma dec_nat_digits: "\<forall>c \<in> set (dec_nat n). is_digit c"
proof (induction n rule: dec_nat.induct)
  case (1 n)
  show ?case
  proof (cases "n < 10")
    case True
    then show ?thesis by (subst dec_nat.simps) (auto simp: is_digit_def)
  next
    case False
    have "n mod 10 < 10" by simp
    then have "is_digit (digit_char (n mod 10))" unfolding is_digit_def by blast
    then show ?thesis using False 1 by (subst dec_nat.simps) auto
  qed
qed

lemma dec_nat_nonempty: "dec_nat n \<noteq> []"
  by (subst dec_nat.simps) simp

lemma radix_value_snoc:
  "radix_value R (Z @ [c]) = radix_value R Z * R + (case digit_value c of Some d \<Rightarrow> d | None \<Rightarrow> 0)"
  by (simp add: radix_value_def)

lemma radix_value_dec_nat: "radix_value 10 (dec_nat n) = int n"
proof (induction n rule: dec_nat.induct)
  case (1 n)
  show ?case
  proof (cases "n < 10")
    case True
    then show ?thesis
      by (subst dec_nat.simps) (simp add: radix_value_def digit_char_props(1))
  next
    case False
    have "radix_value 10 (dec_nat n) = radix_value 10 (dec_nat (n div 10) @ [digit_char (n mod 10)])"
      using False by (subst dec_nat.simps) simp
    also have "\<dots> = int (n div 10) * 10 + int (n mod 10)"
      using False 1 by (simp add: radix_value_snoc digit_char_props(1))
    also have "\<dots> = int n" by (simp add: zdiv_int zmod_int)
    finally show ?thesis .
  qed
qed

lemma is_digit_props:
  assumes "is_digit c"
  shows "radix_digit 10 c" and "\<not> StrWhiteSpaceChar c" and "c \<noteq> CHR ''-''" and "c \<noteq> CHR ''+''"
    and "c \<noteq> CHR ''x''" and "c \<noteq> CHR ''X''"
  using assms digit_char_props unfolding is_digit_def radix_digit_def by auto

lemma parseInt_digits:
  assumes "Z \<noteq> []" "\<forall>c \<in> set Z. is_digit c"
  shows "parseInt Z = fl (of_int (radix_value 10 Z))"
    and "parseInt (CHR ''-'' # Z) = fl (of_int (- radix_value 10 Z))"
proof -
  obtain c cs where Z: "Z = c # cs" using assms(1) by (cases Z) auto
  have c: "is_digit c" using assms(2) Z by simp
  have nohex: "take 2 Z \<noteq> ''0x''" "take 2 Z \<noteq> ''0X''"
  proof -
    { fix p assume "take 2 Z = [CHR ''0'', p]"
      then have "p \<in> set (take 2 Z)" by simp
      then have "p \<in> set Z" by (rule in_set_takeD)
      then have "is_digit p" using assms(2) by blast }
    then show "take 2 Z \<noteq> ''0x''" "take 2 Z \<noteq> ''0X''"
      using is_digit_props(5,6) by blast+
  qed
  have tw: "takeWhile (radix_digit 10) Z = Z"
    using assms(2) is_digit_props(1) by simp
  have d1: "dropWhile StrWhiteSpaceChar Z = Z"
    using is_digit_props(2) [OF c] by (simp add: Z)
  have d2: "dropWhile StrWhiteSpaceChar (CHR ''-'' # Z) = CHR ''-'' # Z"
    by (simp add: StrWhiteSpaceChar_def)
  have t1: "take 1 Z \<noteq> ''-''" "take 1 Z \<noteq> ''+''"
    using is_digit_props(3,4) [OF c] by (simp_all add: Z)
  show "parseInt Z = fl (of_int (radix_value 10 Z))"
    unfolding parseInt_def d1 Let_def
    using t1 nohex assms(1) by (simp add: tw)
  show "parseInt (CHR ''-'' # Z) = fl (of_int (- radix_value 10 Z))"
    unfolding parseInt_def d2 Let_def
    using nohex assms(1) by (simp add: tw)
qed

lemma parseInt_dec: "parseInt (dec c) = fl (of_int c)"
  using parseInt_digits [OF dec_nat_nonempty dec_nat_digits]
  by (simp add: dec_def radix_value_dec_nat)

section \<open>The scorer, factor by factor\<close>

lemma msg_nonempty: "msg_extreme \<noteq> []" "msg_high \<noteq> []" "msg_rapid \<noteq> []" "msg_short \<noteq> []"
  by (simp_all add: msg_extreme_def msg_high_def msg_rapid_def msg_short_def)

lemma or_else_Some: "s \<noteq> [] \<Longrightarrow> or_else (Some s) m = Some s"
  by (simp add: or_else_def)

lemma or_else_None: "or_else None m = Some m"
  by (simp add: or_else_def)

lemma detectManipulation_unfold:
  "detectManipulation p t obs =
     (let s = no_factor (factor5 obs (factor4 t (factor3 obs (factor2 p t (factor1 p scorer0)))))
      in \<lparr>level = s_riskLevel s, factors = s_factors s, warning = s_warning s,
          confidence = calculateConfidence (s_factors s) t,
          recommendations = getRecommendations (s_riskLevel s) (s_factors s)\<rparr>)"
  by (simp add: detectManipulation_def scorer0_def Let_def)

subsection \<open>The warning follows the factor list\<close>

lemma factor1_warning:
  "s_warning (factor1 p scorer0) = first_warning (s_factors (factor1 p scorer0))"
  "INSUFFICIENT_DATA \<notin> set (s_factors (factor1 p scorer0))"
  by (simp_all add: factor1_def scorer0_def first_warning_def)

lemma factor2_warning:
  assumes "s_warning s = first_warning (s_factors s)" "INSUFFICIENT_DATA \<notin> set (s_factors s)"
  shows "s_warning (factor2 p t s) = first_warning (s_factors (factor2 p t s))"
    and "INSUFFICIENT_DATA \<notin> set (s_factors (factor2 p t s))"
  using assms by (simp_all add: factor2_def first_warning_def or_else_Some or_else_None msg_nonempty)

lemma factor3_warning:
  assumes "s_warning s = first_warning (s_factors s)"
  shows "s_warning (factor3 obs s) = first_warning (s_factors (factor3 obs s))"
  using assms by (simp add: factor3_def first_warning_def Let_def)

lemma factor4_warning:
  assumes "s_warning s = first_warning (s_factors s)"
  shows "s_warning (factor4 t s) = first_warning (s_factors (factor4 t s))"
  using assms by (simp add: factor4_def first_warning_def or_else_Some or_else_None msg_nonempty)

lemma factor5_warning:
  assumes "s_warning s = first_warning (s_factors s)"
  shows "s_warning (factor5 obs s) = first_warning (s_factors (factor5 obs s))"
  using assms by (simp add: factor5_def first_warning_def Let_def)

lemma no_factor_warning:
  assumes "s_warning s = first_warning (s_factors s)"
  shows "s_warning (no_factor s) = first_warning (s_factors (no_factor s))"
  using assms by (simp add: no_factor_def first_warning_def)

subsection \<open>The confidence\<close>

lemma calculateConfidence_sum:
  "calculateConfidence fs t =
     min (max (50 + (if num_gt t (Fin 1) then 20 else 0) + (if num_gt t (Fin 6) then 15 else 0)
               + (if NORMAL_MOVEMENT \<in> set fs then 15 else 0)
               + (if EXTREME_PRICE_DIFF \<in> set fs then 25 else 0)
               - (if INSUFFICIENT_DATA \<in> set fs then 30 else 0)) 0) 100"
  unfolding calculateConfidence_def Let_def by simp

lemma calculateConfidence_range: "0 \<le> calculateConfidence fs t \<and> calculateConfidence fs t \<le> 100"
  unfolding calculateConfidence_def Let_def by simp

lemma detectManipulation_confidence:
  "confidence (detectManipulation p t obs) =
     calculateConfidence (factors (detectManipulation p t obs)) t"
  by (simp add: detectManipulation_def Let_def)

text \<open>
  C7. For every factor list and every \<open>timePeriodHours\<close>, \<open>calculateConfidence\<close> returns
  50, plus 20 if \<open>timePeriodHours > 1\<close>, plus 15 if \<open>timePeriodHours > 6\<close>, plus 15 if the
  factors include \<open>NORMAL_MOVEMENT\<close>, plus 25 if they include \<open>EXTREME_PRICE_DIFF\<close>, minus
  30 if they include \<open>INSUFFICIENT_DATA\<close>, clamped to the interval from 0 to 100; so the
  result is an integer between 0 and 100, and it is the confidence of the report the
  scorer returns.
\<close>

theorem confidence_formula:
  "calculateConfidence fs t =
     min (max (50 + (if num_gt t (Fin 1) then 20 else 0) + (if num_gt t (Fin 6) then 15 else 0)
               + (if NORMAL_MOVEMENT \<in> set fs then 15 else 0)
               + (if EXTREME_PRICE_DIFF \<in> set fs then 25 else 0)
               - (if INSUFFICIENT_DATA \<in> set fs then 30 else 0)) 0) 100
   \<and> 0 \<le> calculateConfidence fs t \<and> calculateConfidence fs t \<le> 100
   \<and> confidence (detectManipulation p t obs) =
       calculateConfidence (factors (detectManipulation p t obs)) t"
  using calculateConfidence_sum [of fs t] calculateConfidence_range [of fs t]
    detectManipulation_confidence [of p t obs]
  by blast

subsection \<open>The factors and the level\<close>

lemma tickMovements_empty:
  "successively (\<lambda>prev cur. block_timestamp cur - block_timestamp prev \<le> 0) obs
   \<Longrightarrow> tickMovements obs = []"
proof (induction obs rule: tickMovements.induct)
  case (1 prev cur rest)
  then show ?case by (simp add: timestamp_diff_gt Let_def)
qed simp_all

lemma factor3_no_movement: "tickMovements obs = [] \<Longrightarrow> factor3 obs s = s"
  by (simp add: factor3_def Math_max_def num_of_nat_def)

lemma factor1_factors: "set (s_factors (factor1 p scorer0)) \<subseteq> {EXTREME_PRICE_DIFF, HIGH_PRICE_DIFF, MODERATE_PRICE_DIFF}"
  by (simp add: factor1_def scorer0_def)

lemma factor2_factors: "set (s_factors (factor2 p t s)) \<subseteq> insert RAPID_PRICE_CHANGE (set (s_factors s))"
  by (auto simp: factor2_def)

lemma factor3_factors: "set (s_factors (factor3 obs s)) \<subseteq> insert TICK_SPIKE (set (s_factors s))"
  by (auto simp: factor3_def Let_def)

lemma factor4_factors: "set (s_factors (factor4 t s)) \<subseteq> insert INSUFFICIENT_DATA (set (s_factors s))"
  by (auto simp: factor4_def)

lemma factor5_factors: "set (s_factors (factor5 obs s)) \<subseteq> insert REPETITIVE_PATTERNS (set (s_factors s))"
  by (auto simp: factor5_def Let_def)

lemma no_factor_factors: "set (s_factors (no_factor s)) \<subseteq> insert NORMAL_MOVEMENT (set (s_factors s))"
  by (auto simp: no_factor_def)

lemma no_factor_nonempty: "s_factors (no_factor s) \<noteq> []"
  by (simp add: no_factor_def)

lemma getRecommendations_nonempty: "getRecommendations lv fs \<noteq> []"
  by (cases lv) (simp_all add: getRecommendations_def)

text \<open>
  C9. When no consecutive pair of observations has a positive time difference, the list
  of tick velocities is empty; the scorer then goes on with \<open>Math.max()\<close> being
  \<open>-Infinity\<close> and the mean being NaN, does not add \<open>TICK_SPIKE\<close>, and returns a full
  report: a non-empty factor list, recommendations and a confidence between 0 and 100.
\<close>

theorem no_velocity_no_spike:
  assumes "successively (\<lambda>prev cur. block_timestamp cur - block_timestamp prev \<le> 0) obs"
  shows "tickMovements obs = []
    \<and> TICK_SPIKE \<notin> set (factors (detectManipulation p t obs))
    \<and> factors (detectManipulation p t obs) \<noteq> []
    \<and> recommendations (detectManipulation p t obs) \<noteq> []
    \<and> 0 \<le> confidence (detectManipulation p t obs)
    \<and> confidence (detectManipulation p t obs) \<le> 100"
proof -
  have m: "tickMovements obs = []" using assms by (rule tickMovements_empty)
  let ?s2 = "factor2 p t (factor1 p scorer0)"
  let ?s = "no_factor (factor5 obs (factor4 t ?s2))"
  have u: "detectManipulation p t obs =
      \<lparr>level = s_riskLevel ?s, factors = s_factors ?s, warning = s_warning ?s,
       confidence = calculateConfidence (s_factors ?s) t,
       recommendations = getRecommendations (s_riskLevel ?s) (s_factors ?s)\<rparr>"
    by (simp add: detectManipulation_unfold Let_def factor3_no_movement [OF m])
  have "TICK_SPIKE \<notin> set (s_factors ?s2)"
    using factor2_factors [of p t "factor1 p scorer0"] factor1_factors [of p] by auto
  then have "TICK_SPIKE \<notin> set (s_factors ?s)"
    using no_factor_factors [of "factor5 obs (factor4 t ?s2)"]
      factor5_factors [of obs "factor4 t ?s2"] factor4_factors [of t ?s2] by auto
  then show ?thesis
    using m u no_factor_nonempty getRecommendations_nonempty calculateConfidence_range
    by simp
qed

theorem no_velocity_no_spike_witness:
  "successively (\<lambda>prev cur. block_timestamp cur - block_timestamp prev \<le> 0)
     [\<lparr>block_timestamp = 5, tick_cumulative = ''0''\<rparr>,
      \<lparr>block_timestamp = 5, tick_cumulative = ''7''\<rparr>,
      \<lparr>block_timestamp = 3, tick_cumulative = ''9''\<rparr>]
   \<and> TICK_SPIKE \<notin> set (factors (detectManipulation (Fin 0) (Fin 0)
     [\<lparr>block_timestamp = 5, tick_cumulative = ''0''\<rparr>,
      \<lparr>block_timestamp = 5, tick_cumulative = ''7''\<rparr>,
      \<lparr>block_timestamp = 3, tick_cumulative = ''9''\<rparr>]))"
  using no_velocity_no_spike [of
     "[\<lparr>block_timestamp = 5, tick_cumulative = ''0''\<rparr>,
       \<lparr>block_timestamp = 5, tick_cumulative = ''7''\<rparr>,
       \<lparr>block_timestamp = 3, tick_cumulative = ''9''\<rparr>]" "Fin 0" "Fin 0"]
  by simp

lemma factor2_keeps:
  "set (s_factors s) \<subseteq> set (s_factors (factor2 p t s))"
  "rank (s_riskLevel s) \<le> rank (s_riskLevel (factor2 p t s))"
  by (auto simp: factor2_def)

lemma factor3_keeps:
  "set (s_factors s) \<subseteq> set (s_factors (factor3 obs s))"
  "rank (s_riskLevel s) \<le> rank (s_riskLevel (factor3 obs s))"
  by (auto simp: factor3_def Let_def)

lemma factor4_keeps:
  "set (s_factors s) \<subseteq> set (s_factors (factor4 t s))"
  "rank (s_riskLevel s) \<le> rank (s_riskLevel (factor4 t s))"
  by (auto simp: factor4_def)

lemma factor5_keeps:
  "set (s_factors s) \<subseteq> set (s_factors (factor5 obs s))"
  "rank (s_riskLevel s) \<le> rank (s_riskLevel (factor5 obs s))"
  by (auto simp: factor5_def Let_def)

lemma no_factor_keeps:
  "set (s_factors s) \<subseteq> set (s_factors (no_factor s))"
  "rank (s_riskLevel s) \<le> rank (s_riskLevel (no_factor s))"
  by (auto simp: no_factor_def)

lemma scorer_keeps:
  "set (s_factors s) \<subseteq>
     set (s_factors (no_factor (factor5 obs (factor4 t (factor3 obs (factor2 p t s))))))"
  "rank (s_riskLevel s) \<le>
     rank (s_riskLevel (no_factor (factor5 obs (factor4 t (factor3 obs (factor2 p t s))))))"
proof -
  show "set (s_factors s) \<subseteq>
     set (s_factors (no_factor (factor5 obs (factor4 t (factor3 obs (factor2 p t s))))))"
    by (rule subset_trans [OF factor2_keeps(1) subset_trans [OF factor3_keeps(1)
          subset_trans [OF factor4_keeps(1) subset_trans [OF factor5_keeps(1) no_factor_keeps(1)]]]])
  show "rank (s_riskLevel s) \<le>
     rank (s_riskLevel (no_factor (factor5 obs (factor4 t (factor3 obs (factor2 p t s))))))"
    by (rule order_trans [OF factor2_keeps(2) order_trans [OF factor3_keeps(2)
          order_trans [OF factor4_keeps(2) order_trans [OF factor5_keeps(2) no_factor_keeps(2)]]]])
qed

lemma rank_CRITICAL: "3 \<le> rank l \<Longrightarrow> l = CRITICAL"
  by (cases l) simp_all

lemma factor1_extreme:
  "num_gt p (Fin 50) \<Longrightarrow> factor1 p scorer0 =
     \<lparr>s_factors = [EXTREME_PRICE_DIFF], s_riskLevel = CRITICAL, s_warning = Some msg_extreme\<rparr>"
  by (simp add: factor1_def scorer0_def)

lemma factor1_high:
  "num_gt p (Fin 30) \<Longrightarrow> num_le p (Fin 50) \<Longrightarrow> factor1 p scorer0 =
     \<lparr>s_factors = [HIGH_PRICE_DIFF], s_riskLevel = HIGH, s_warning = Some msg_high\<rparr>"
  by (simp add: factor1_def scorer0_def num_le_def)

lemma factor1_moderate:
  "num_gt p (Fin 15) \<Longrightarrow> num_le p (Fin 30) \<Longrightarrow> factor1 p scorer0 =
     \<lparr>s_factors = [MODERATE_PRICE_DIFF], s_riskLevel = MEDIUM, s_warning = None\<rparr>"
  by (cases p) (simp_all add: factor1_def scorer0_def num_le_def)

lemma scorer_level_factors:
  "level (detectManipulation p t obs) =
     s_riskLevel (no_factor (factor5 obs (factor4 t (factor3 obs (factor2 p t (factor1 p scorer0))))))"
  "factors (detectManipulation p t obs) =
     s_factors (no_factor (factor5 obs (factor4 t (factor3 obs (factor2 p t (factor1 p scorer0))))))"
  by (simp_all add: detectManipulation_unfold Let_def)

lemma extreme_report:
  assumes "num_gt p (Fin 50)"
  shows "EXTREME_PRICE_DIFF \<in> set (factors (detectManipulation p t obs))"
    and "level (detectManipulation p t obs) = CRITICAL"
    and "NORMAL_MOVEMENT \<notin> set (factors (detectManipulation p t obs))"
proof -
  let ?s1 = "factor1 p scorer0"
  let ?s5 = "factor5 obs (factor4 t (factor3 obs (factor2 p t ?s1)))"
  have s1: "s_factors ?s1 = [EXTREME_PRICE_DIFF]" "s_riskLevel ?s1 = CRITICAL"
    using factor1_extreme [OF assms] by simp_all
  show "EXTREME_PRICE_DIFF \<in> set (factors (detectManipulation p t obs))"
    using scorer_keeps(1) [where s = ?s1 and p = p and t = t and obs = obs] s1 by (auto simp: scorer_level_factors)
  show "level (detectManipulation p t obs) = CRITICAL"
    using scorer_keeps(2) [where s = ?s1 and p = p and t = t and obs = obs] s1 by (simp add: scorer_level_factors rank_CRITICAL)
  have "EXTREME_PRICE_DIFF \<in> set (s_factors ?s5)"
    using factor2_keeps(1) [of ?s1 p t] factor3_keeps(1) [of "factor2 p t ?s1" obs]
      factor4_keeps(1) [of "factor3 obs (factor2 p t ?s1)" t]
      factor5_keeps(1) [of "factor4 t (factor3 obs (factor2 p t ?s1))" obs] s1
    by auto
  then have ne: "s_factors ?s5 \<noteq> []" by auto
  have "NORMAL_MOVEMENT \<notin> set (s_factors ?s5)"
    using factor2_factors [of p t ?s1] factor3_factors [of obs "factor2 p t ?s1"]
      factor4_factors [of t "factor3 obs (factor2 p t ?s1)"]
      factor5_factors [of obs "factor4 t (factor3 obs (factor2 p t ?s1))"] s1
    by auto
  then show "NORMAL_MOVEMENT \<notin> set (factors (detectManipulation p t obs))"
    using ne by (simp add: scorer_level_factors no_factor_def)
qed

text \<open>
  C6. For every input of the scorer: a price difference above 50 gives the factor
  \<open>EXTREME_PRICE_DIFF\<close> and the level \<open>CRITICAL\<close>; one above 30 and at most 50 gives
  \<open>HIGH_PRICE_DIFF\<close> and a level of at least \<open>HIGH\<close>; one above 15 and at most 30 gives
  \<open>MODERATE_PRICE_DIFF\<close> and a level of at least \<open>MEDIUM\<close>; and with a price difference
  of 60 the level is \<open>CRITICAL\<close>, the factors include \<open>EXTREME_PRICE_DIFF\<close> and the
  confidence is the clamped sum with its 25 added.
\<close>

theorem price_difference_levels:
  "(num_gt p (Fin 50) \<longrightarrow>
      EXTREME_PRICE_DIFF \<in> set (factors (detectManipulation p t obs))
      \<and> level (detectManipulation p t obs) = CRITICAL)
   \<and> (num_gt p (Fin 30) \<and> num_le p (Fin 50) \<longrightarrow>
      HIGH_PRICE_DIFF \<in> set (factors (detectManipulation p t obs))
      \<and> rank HIGH \<le> rank (level (detectManipulation p t obs)))
   \<and> (num_gt p (Fin 15) \<and> num_le p (Fin 30) \<longrightarrow>
      MODERATE_PRICE_DIFF \<in> set (factors (detectManipulation p t obs))
      \<and> rank MEDIUM \<le> rank (level (detectManipulation p t obs)))
   \<and> (p = Fin 60 \<longrightarrow>
      level (detectManipulation p t obs) = CRITICAL
      \<and> EXTREME_PRICE_DIFF \<in> set (factors (detectManipulation p t obs))
      \<and> confidence (detectManipulation p t obs) =
          min (max (50 + (if num_gt t (Fin 1) then 20 else 0)
                       + (if num_gt t (Fin 6) then 15 else 0) + 25
                       - (if INSUFFICIENT_DATA \<in> set (factors (detectManipulation p t obs))
                          then 30 else 0)) 0) 100)"
proof (intro conjI impI)
  let ?r = "detectManipulation p t obs"
  let ?s1 = "factor1 p scorer0"
  { assume "num_gt p (Fin 50)"
    then show "EXTREME_PRICE_DIFF \<in> set (factors ?r)" "level ?r = CRITICAL"
      by (rule extreme_report)+ }
  { assume a: "num_gt p (Fin 30) \<and> num_le p (Fin 50)"
    then have s1: "s_factors ?s1 = [HIGH_PRICE_DIFF]" "s_riskLevel ?s1 = HIGH"
      using factor1_high [of p] by simp_all
    show "HIGH_PRICE_DIFF \<in> set (factors ?r)"
      using scorer_keeps(1) [where s = ?s1 and p = p and t = t and obs = obs] s1 by (auto simp: scorer_level_factors)
    show "rank HIGH \<le> rank (level ?r)"
      using scorer_keeps(2) [where s = ?s1 and p = p and t = t and obs = obs] s1 by (simp add: scorer_level_factors) }
  { assume a: "num_gt p (Fin 15) \<and> num_le p (Fin 30)"
    then have s1: "s_factors ?s1 = [MODERATE_PRICE_DIFF]" "s_riskLevel ?s1 = MEDIUM"
      using factor1_moderate [of p] by simp_all
    show "MODERATE_PRICE_DIFF \<in> set (factors ?r)"
      using scorer_keeps(1) [where s = ?s1 and p = p and t = t and obs = obs] s1 by (auto simp: scorer_level_factors)
    show "rank MEDIUM \<le> rank (level ?r)"
      using scorer_keeps(2) [where s = ?s1 and p = p and t = t and obs = obs] s1 by (simp add: scorer_level_factors) }
  { assume "p = Fin 60"
    then have g: "num_gt p (Fin 50)" by simp
    show "level ?r = CRITICAL" "EXTREME_PRICE_DIFF \<in> set (factors ?r)"
      using extreme_report [OF g] by simp_all
    show "confidence ?r =
          min (max (50 + (if num_gt t (Fin 1) then 20 else 0)
                       + (if num_gt t (Fin 6) then 15 else 0) + 25
                       - (if INSUFFICIENT_DATA \<in> set (factors ?r) then 30 else 0)) 0) 100"
      using extreme_report [OF g, of t obs]
      by (simp add: detectManipulation_confidence calculateConfidence_sum) }
qed

theorem price_difference_levels_witness:
  "num_gt (Fin 60) (Fin 50) \<and> Fin 60 = Fin 60
   \<and> EXTREME_PRICE_DIFF \<in> set (factors (detectManipulation (Fin 60) (Fin 2) []))
   \<and> level (detectManipulation (Fin 60) (Fin 2) []) = CRITICAL
   \<and> num_gt (Fin 40) (Fin 30) \<and> num_le (Fin 40) (Fin 50)
   \<and> HIGH_PRICE_DIFF \<in> set (factors (detectManipulation (Fin 40) (Fin 2) []))
   \<and> rank HIGH \<le> rank (level (detectManipulation (Fin 40) (Fin 2) []))
   \<and> num_gt (Fin 20) (Fin 15) \<and> num_le (Fin 20) (Fin 30)
   \<and> MODERATE_PRICE_DIFF \<in> set (factors (detectManipulation (Fin 20) (Fin 2) []))
   \<and> rank MEDIUM \<le> rank (level (detectManipulation (Fin 20) (Fin 2) []))"
  using price_difference_levels [of "Fin 60" "Fin 2" "[]"]
    price_difference_levels [of "Fin 40" "Fin 2" "[]"]
    price_difference_levels [of "Fin 20" "Fin 2" "[]"]
  by (simp add: num_le_def)

subsection \<open>The warning, from the inputs\<close>

lemma factor1_set:
  "set (s_factors (factor1 p scorer0)) =
     (if num_gt p (Fin 50) then {EXTREME_PRICE_DIFF}
      else if num_gt p (Fin 30) then {HIGH_PRICE_DIFF}
      else if num_gt p (Fin 15) then {MODERATE_PRICE_DIFF} else {})"
  by (simp add: factor1_def scorer0_def)

lemma factor2_set:
  "set (s_factors (factor2 p t s)) =
     set (s_factors s) \<union> (if num_lt t (Fin 1) \<and> num_gt p (Fin 20) then {RAPID_PRICE_CHANGE} else {})"
  by (simp add: factor2_def)

lemma factor3_mem:
  "f \<noteq> TICK_SPIKE \<Longrightarrow> f \<in> set (s_factors (factor3 obs s)) \<longleftrightarrow> f \<in> set (s_factors s)"
  by (simp add: factor3_def Let_def)

lemma factor4_set:
  "set (s_factors (factor4 t s)) =
     set (s_factors s) \<union> (if num_lt t (lit (1 / 10)) then {INSUFFICIENT_DATA} else {})"
  by (simp add: factor4_def)

lemma factor5_mem:
  "f \<noteq> REPETITIVE_PATTERNS \<Longrightarrow> f \<in> set (s_factors (factor5 obs s)) \<longleftrightarrow> f \<in> set (s_factors s)"
  by (simp add: factor5_def Let_def)

lemma no_factor_mem:
  "f \<noteq> NORMAL_MOVEMENT \<Longrightarrow> f \<in> set (s_factors (no_factor s)) \<longleftrightarrow> f \<in> set (s_factors s)"
  by (simp add: no_factor_def)

lemma warning_factor_iff:
  "EXTREME_PRICE_DIFF \<in> set (factors (detectManipulation p t obs)) \<longleftrightarrow> num_gt p (Fin 50)"
  "HIGH_PRICE_DIFF \<in> set (factors (detectManipulation p t obs))
     \<longleftrightarrow> \<not> num_gt p (Fin 50) \<and> num_gt p (Fin 30)"
  "RAPID_PRICE_CHANGE \<in> set (factors (detectManipulation p t obs))
     \<longleftrightarrow> num_lt t (Fin 1) \<and> num_gt p (Fin 20)"
  "INSUFFICIENT_DATA \<in> set (factors (detectManipulation p t obs)) \<longleftrightarrow> num_lt t (lit (1 / 10))"
  by (simp_all add: scorer_level_factors no_factor_mem factor5_mem factor4_set factor3_mem
      factor2_set factor1_set)

lemma warning_by_factors:
  "warning (detectManipulation p t obs) = first_warning (factors (detectManipulation p t obs))"
proof -
  let ?s = "no_factor (factor5 obs (factor4 t (factor3 obs (factor2 p t (factor1 p scorer0)))))"
  have "s_warning ?s = first_warning (s_factors ?s)"
    by (intro no_factor_warning factor5_warning factor4_warning factor3_warning
          factor2_warning factor1_warning)
  then show ?thesis
    by (simp add: detectManipulation_unfold Let_def)
qed

lemma warning_by_inputs:
  "warning (detectManipulation p t obs) =
     (if num_gt p (Fin 50) then Some msg_extreme
      else if num_gt p (Fin 30) then Some msg_high
      else if num_lt t (Fin 1) \<and> num_gt p (Fin 20) then Some msg_rapid
      else if num_lt t (lit (1 / 10)) then Some msg_short
      else None)"
  unfolding warning_by_factors first_warning_def warning_factor_iff by simp


lemma warning_kept:
  assumes "s_warning s = Some w" "w \<noteq> []"
  shows "s_warning (factor2 p t s) = Some w" "s_warning (factor3 obs s) = Some w"
    "s_warning (factor4 t s) = Some w" "s_warning (factor5 obs s) = Some w"
    "s_warning (no_factor s) = Some w"
  using assms
  by (simp_all add: factor2_def factor3_def factor4_def factor5_def no_factor_def Let_def
      or_else_Some)

text \<open>
  C8. Whatever the scorer is given, the warning it returns is decided by its inputs in
  priority order: the extreme-difference message if the price difference is above 50,
  else the high-difference message if it is above 30, else the rapid-change message if
  the period is under one hour and the difference above 20, else the short-period
  message if the period is under 0.1 hours, else \<open>null\<close>. Each of the four factors is
  among the returned factors exactly under its condition, so the warning is the message
  of the first of \<open>EXTREME_PRICE_DIFF\<close>, \<open>HIGH_PRICE_DIFF\<close>, \<open>RAPID_PRICE_CHANGE\<close>,
  \<open>INSUFFICIENT_DATA\<close> that fired and \<open>null\<close> when none did; and a check that comes
  after a warning was set leaves that warning as it is.
\<close>

theorem warning_priority:
  "warning (detectManipulation p t obs) =
     (if num_gt p (Fin 50) then Some msg_extreme
      else if num_gt p (Fin 30) then Some msg_high
      else if num_lt t (Fin 1) \<and> num_gt p (Fin 20) then Some msg_rapid
      else if num_lt t (lit (1 / 10)) then Some msg_short
      else None)
   \<and> (EXTREME_PRICE_DIFF \<in> set (factors (detectManipulation p t obs)) \<longleftrightarrow> num_gt p (Fin 50))
   \<and> (HIGH_PRICE_DIFF \<in> set (factors (detectManipulation p t obs))
        \<longleftrightarrow> \<not> num_gt p (Fin 50) \<and> num_gt p (Fin 30))
   \<and> (RAPID_PRICE_CHANGE \<in> set (factors (detectManipulation p t obs))
        \<longleftrightarrow> num_lt t (Fin 1) \<and> num_gt p (Fin 20))
   \<and> (INSUFFICIENT_DATA \<in> set (factors (detectManipulation p t obs))
        \<longleftrightarrow> num_lt t (lit (1 / 10)))
   \<and> warning (detectManipulation p t obs) =
       (let fs = factors (detectManipulation p t obs)
        in if EXTREME_PRICE_DIFF \<in> set fs then Some msg_extreme
           else if HIGH_PRICE_DIFF \<in> set fs then Some msg_high
           else if RAPID_PRICE_CHANGE \<in> set fs then Some msg_rapid
           else if INSUFFICIENT_DATA \<in> set fs then Some msg_short
           else None)
   \<and> (s_warning s = Some w \<and> w \<noteq> [] \<longrightarrow>
        s_warning (factor2 p t s) = Some w \<and> s_warning (factor3 obs s) = Some w
        \<and> s_warning (factor4 t s) = Some w \<and> s_warning (factor5 obs s) = Some w
        \<and> s_warning (no_factor s) = Some w)"
proof (intro conjI impI)
  show "warning (detectManipulation p t obs) =
     (if num_gt p (Fin 50) then Some msg_extreme
      else if num_gt p (Fin 30) then Some msg_high
      else if num_lt t (Fin 1) \<and> num_gt p (Fin 20) then Some msg_rapid
      else if num_lt t (lit (1 / 10)) then Some msg_short
      else None)"
    by (rule warning_by_inputs)
  show "warning (detectManipulation p t obs) =
       (let fs = factors (detectManipulation p t obs)
        in if EXTREME_PRICE_DIFF \<in> set fs then Some msg_extreme
           else if HIGH_PRICE_DIFF \<in> set fs then Some msg_high
           else if RAPID_PRICE_CHANGE \<in> set fs then Some msg_rapid
           else if INSUFFICIENT_DATA \<in> set fs then Some msg_short
           else None)"
    by (simp only: warning_by_factors first_warning_def Let_def)
next
  assume a: "s_warning s = Some w \<and> w \<noteq> []"
  then show "s_warning (factor2 p t s) = Some w" "s_warning (factor3 obs s) = Some w"
    "s_warning (factor4 t s) = Some w" "s_warning (factor5 obs s) = Some w"
    "s_warning (no_factor s) = Some w"
    by (simp_all add: warning_kept)
qed (simp_all only: warning_factor_iff)

lemma lit_tenth: "lit (1 / 10) = Fin (3602879701896397 / 36028797018963968)"
  by (simp add: lit_def fl_eval)

theorem warning_priority_witness:
  "s_warning \<lparr>s_factors = [EXTREME_PRICE_DIFF], s_riskLevel = CRITICAL,
              s_warning = Some msg_extreme\<rparr> = Some msg_extreme
   \<and> msg_extreme \<noteq> []
   \<and> s_warning (factor4 (Fin 0) \<lparr>s_factors = [EXTREME_PRICE_DIFF], s_riskLevel = CRITICAL,
                 s_warning = Some msg_extreme\<rparr>) = Some msg_extreme
   \<and> warning (detectManipulation (Fin 60) (Fin 0) []) = Some msg_extreme
   \<and> warning (detectManipulation (Fin 40) (Fin 0) []) = Some msg_high
   \<and> warning (detectManipulation (Fin 25) (Fin 0) []) = Some msg_rapid
   \<and> warning (detectManipulation (Fin 25) (Fin 2) []) = None
   \<and> warning (detectManipulation (Fin 0) (Fin 0) []) = Some msg_short
   \<and> INSUFFICIENT_DATA \<in> set (factors (detectManipulation (Fin 60) (Fin 0) []))"
  using warning_priority [where p = "Fin 60" and t = "Fin 0" and obs = "[]" and w = msg_extreme
      and s = "\<lparr>s_factors = [EXTREME_PRICE_DIFF], s_riskLevel = CRITICAL,
                s_warning = Some msg_extreme\<rparr>"]
    warning_priority [where p = "Fin 40" and t = "Fin 0" and obs = "[]"]
    warning_priority [where p = "Fin 25" and t = "Fin 0" and obs = "[]"]
    warning_priority [where p = "Fin 25" and t = "Fin 2" and obs = "[]"]
    warning_priority [where p = "Fin 0" and t = "Fin 0" and obs = "[]"]
  by (simp add: msg_nonempty num_lt_def lit_tenth)

section \<open>The engine\<close>

lemma insert_sorted_by_timestamp:
  "insert_sorted by_timestamp x ys = insort_key block_timestamp x ys"
  by (induction ys) (auto simp: by_timestamp_def timestamp_diff_gt)

lemma Array_sort_by_timestamp: "Array_sort by_timestamp xs = sort_key block_timestamp xs"
  by (induction xs) (simp_all add: Array_sort_def insert_sorted_by_timestamp sort_key_def)

lemma valid_observation_iff: "valid_observation obs \<longleftrightarrow> 0 < block_timestamp obs"
  by (simp add: valid_observation_def num_of_int_def)

lemma calculateTWAP_body:
  "calculateTWAP approx pool obs = twap_body approx pool (validObservations obs)"
  "calculateTWAPCLI approx pool obs = twap_body approx pool (validObservations obs)"
  by (simp_all add: calculateTWAP_def calculateTWAPCLI_def validObservations_def)

lemma length_validObservations:
  "length (validObservations obs) = length (filter valid_observation obs)"
  by (simp add: validObservations_def Array_sort_by_timestamp)

lemma twap_body_few:
  "length v < 2 \<Longrightarrow> twap_body approx pool v = (if v = [] then Inl TypeError else Inl InsufficientData)"
  by (simp add: twap_body_def)

text \<open>
  C3. With fewer than two observations whose timestamp is positive both functions fail,
  and nothing is returned. With exactly one such observation the failure is the error
  "Need at least 2 observations to calculate TWAP"; with none it is the \<open>TypeError\<close> of
  the log line in front of the length check.
\<close>

theorem few_valid_observations:
  assumes "length (filter valid_observation obs) < 2"
  shows "calculateTWAP approx pool obs =
           (if filter valid_observation obs = [] then Inl TypeError else Inl InsufficientData)
       \<and> calculateTWAPCLI approx pool obs =
           (if filter valid_observation obs = [] then Inl TypeError else Inl InsufficientData)"
proof -
  have "length (validObservations obs) < 2" using assms by (simp add: length_validObservations)
  moreover have "validObservations obs = [] \<longleftrightarrow> filter valid_observation obs = []"
    using length_validObservations [of obs] by (metis length_0_conv)
  ultimately show ?thesis by (simp add: calculateTWAP_body twap_body_few)
qed

theorem few_valid_observations_witness:
  "length (filter valid_observation [\<lparr>block_timestamp = 0, tick_cumulative = ''0''\<rparr>]) < 2
   \<and> calculateTWAP pow_nearest \<lparr>tick_current = - 16520, mint_decimals_0 = 9, mint_decimals_1 = 6\<rparr>
        [\<lparr>block_timestamp = 0, tick_cumulative = ''0''\<rparr>] = Inl TypeError
   \<and> Inl TypeError \<noteq> (Inl InsufficientData :: error + twapResult)"
  using few_valid_observations [of "[\<lparr>block_timestamp = 0, tick_cumulative = ''0''\<rparr>]" pow_nearest
      "\<lparr>tick_current = - 16520, mint_decimals_0 = 9, mint_decimals_1 = 6\<rparr>"]
  by (simp add: valid_observation_iff InsufficientData_def)

lemma heap_run:
  assumes "a < length h"
  shows "calculateTWAP_heap approx pool a h =
           (calculateTWAP approx pool (h ! a), h @ [validObservations (h ! a)])"
    and "calculateTWAPCLI_heap approx pool a h =
           (calculateTWAPCLI approx pool (h ! a), h @ [validObservations (h ! a)])"
  using assms
  by (simp_all add: calculateTWAP_heap_def calculateTWAPCLI_heap_def Array_filter_new_def
      Array_sort_at_def calculateTWAP_body validObservations_def nth_append)

text \<open>
  C10. A call of either function leaves every array that existed before the call as it
  was, the caller's array among them: the filter allocates the array that is sorted.
  What the call returns or throws is the result of the function on the contents of the
  caller's array.
\<close>

theorem caller_array_unchanged:
  assumes "a < length h"
  shows "snd (calculateTWAP_heap approx pool a h) ! a = h ! a
       \<and> take (length h) (snd (calculateTWAP_heap approx pool a h)) = h
       \<and> fst (calculateTWAP_heap approx pool a h) = calculateTWAP approx pool (h ! a)
       \<and> snd (calculateTWAPCLI_heap approx pool a h) ! a = h ! a
       \<and> take (length h) (snd (calculateTWAPCLI_heap approx pool a h)) = h
       \<and> fst (calculateTWAPCLI_heap approx pool a h) = calculateTWAPCLI approx pool (h ! a)"
  using assms by (simp add: heap_run nth_append)

theorem caller_array_unchanged_witness:
  "(0::nat) < length [[\<lparr>block_timestamp = 2, tick_cumulative = ''5''\<rparr>,
                       \<lparr>block_timestamp = 1, tick_cumulative = ''0''\<rparr>]]
   \<and> snd (calculateTWAP_heap pow_nearest
            \<lparr>tick_current = 0, mint_decimals_0 = 6, mint_decimals_1 = 6\<rparr> 0
            [[\<lparr>block_timestamp = 2, tick_cumulative = ''5''\<rparr>,
              \<lparr>block_timestamp = 1, tick_cumulative = ''0''\<rparr>]]) ! 0 =
       [\<lparr>block_timestamp = 2, tick_cumulative = ''5''\<rparr>,
        \<lparr>block_timestamp = 1, tick_cumulative = ''0''\<rparr>]"
  using caller_array_unchanged [of 0
      "[[\<lparr>block_timestamp = 2, tick_cumulative = ''5''\<rparr>,
         \<lparr>block_timestamp = 1, tick_cumulative = ''0''\<rparr>]]" pow_nearest
      "\<lparr>tick_current = 0, mint_decimals_0 = 6, mint_decimals_1 = 6\<rparr>"]
  by simp

subsection \<open>The returned fields\<close>

lemma twap_body_fields:
  assumes "2 \<le> length v"
  shows "\<exists>r. twap_body approx pool v = Inr r
    \<and> twapTick r =
        num_div (num_sub (parseInt (tick_cumulative (last v))) (parseInt (tick_cumulative (hd v))))
                (num_sub (num_of_int (block_timestamp (last v))) (num_of_int (block_timestamp (hd v))))
    \<and> currentPrice r =
        num_mul (Math_pow approx (lit (10001 / 10000)) (num_of_int (tick_current pool)))
                (Math_pow approx (Fin 10)
                   (num_sub (num_of_int (mint_decimals_1 pool)) (num_of_int (mint_decimals_0 pool))))
    \<and> priceDifferencePercent r =
        Math_abs (num_mul (num_div (num_sub (twapPrice r) (currentPrice r)) (currentPrice r)) (Fin 100))"
proof -
  have "v \<noteq> []" "\<not> length v < 2" using assms by auto
  then show ?thesis by (simp add: twap_body_def Let_def)
qed

lemma num_div_zero: "num_div x (Fin 0) \<in> {NaN, PInf, NInf}"
  by (cases x) (simp_all add: signed_inf_def)

lemma abs_mul_inf: "z \<in> {NaN, PInf, NInf} \<Longrightarrow> Math_abs (num_mul z (Fin 100)) \<in> {NaN, PInf}"
  by (auto simp: signed_inf_def)

text \<open>
  C2. When at least two observations are valid and the oldest and the newest of them
  have the same timestamp, neither function fails: the time difference is zero, the
  division is carried out, and the result that is returned has a \<open>twapTick\<close> that is NaN
  or an infinity.
\<close>

theorem zero_time_range_returns:
  assumes "2 \<le> length (validObservations obs)"
    and "block_timestamp (hd (validObservations obs)) = block_timestamp (last (validObservations obs))"
  shows "(\<exists>r. calculateTWAP approx pool obs = Inr r \<and> twapTick r \<in> {NaN, PInf, NInf})
       \<and> (\<exists>r. calculateTWAPCLI approx pool obs = Inr r \<and> twapTick r \<in> {NaN, PInf, NInf})"
proof -
  from twap_body_fields [OF assms(1), of approx pool]
  obtain r where r: "twap_body approx pool (validObservations obs) = Inr r"
    and t: "twapTick r =
        num_div (num_sub (parseInt (tick_cumulative (last (validObservations obs))))
                         (parseInt (tick_cumulative (hd (validObservations obs)))))
                (num_sub (num_of_int (block_timestamp (last (validObservations obs))))
                         (num_of_int (block_timestamp (hd (validObservations obs)))))"
    by blast
  have "num_sub (num_of_int (block_timestamp (last (validObservations obs))))
                (num_of_int (block_timestamp (hd (validObservations obs)))) = Fin 0"
    using assms(2) by (simp add: num_sub_Fin num_of_int_def fl_def)
  then have "twapTick r \<in> {NaN, PInf, NInf}" using t num_div_zero by simp
  then show ?thesis using r by (simp add: calculateTWAP_body)
qed

lemma validObservations_sort:
  "validObservations obs = sort_key block_timestamp (filter (\<lambda>obs. 0 < block_timestamp obs) obs)"
  by (simp add: validObservations_def Array_sort_by_timestamp valid_observation_iff [abs_def])

theorem zero_time_range_returns_witness:
  "2 \<le> length (validObservations [\<lparr>block_timestamp = 100, tick_cumulative = ''0''\<rparr>,
                                    \<lparr>block_timestamp = 100, tick_cumulative = ''5''\<rparr>])
   \<and> block_timestamp (hd (validObservations
         [\<lparr>block_timestamp = 100, tick_cumulative = ''0''\<rparr>,
          \<lparr>block_timestamp = 100, tick_cumulative = ''5''\<rparr>]))
     = block_timestamp (last (validObservations
         [\<lparr>block_timestamp = 100, tick_cumulative = ''0''\<rparr>,
          \<lparr>block_timestamp = 100, tick_cumulative = ''5''\<rparr>]))
   \<and> (\<exists>r. calculateTWAP pow_nearest \<lparr>tick_current = - 16520, mint_decimals_0 = 9, mint_decimals_1 = 6\<rparr>
        [\<lparr>block_timestamp = 100, tick_cumulative = ''0''\<rparr>,
         \<lparr>block_timestamp = 100, tick_cumulative = ''5''\<rparr>] = Inr r \<and> twapTick r \<in> {NaN, PInf, NInf})"
  using zero_time_range_returns [of "[\<lparr>block_timestamp = 100, tick_cumulative = ''0''\<rparr>,
         \<lparr>block_timestamp = 100, tick_cumulative = ''5''\<rparr>]" pow_nearest
         "\<lparr>tick_current = - 16520, mint_decimals_0 = 9, mint_decimals_1 = 6\<rparr>"]
  by (simp add: validObservations_sort)

text \<open>
  C5. When at least two observations are valid and the current price evaluates to zero,
  neither function fails: the price difference is divided by that zero and the result
  that is returned has a \<open>priceDifferencePercent\<close> that is NaN or \<open>Infinity\<close>.
\<close>

theorem zero_current_price_returns:
  assumes "2 \<le> length (validObservations obs)"
    and "num_mul (Math_pow approx (lit (10001 / 10000)) (num_of_int (tick_current pool)))
                 (Math_pow approx (Fin 10)
                    (num_sub (num_of_int (mint_decimals_1 pool)) (num_of_int (mint_decimals_0 pool))))
         = Fin 0"
  shows "(\<exists>r. calculateTWAP approx pool obs = Inr r \<and> currentPrice r = Fin 0
              \<and> priceDifferencePercent r \<in> {NaN, PInf})
       \<and> (\<exists>r. calculateTWAPCLI approx pool obs = Inr r \<and> currentPrice r = Fin 0
              \<and> priceDifferencePercent r \<in> {NaN, PInf})"
proof -
  from twap_body_fields [OF assms(1), of approx pool]
  obtain r where r: "twap_body approx pool (validObservations obs) = Inr r"
    and c: "currentPrice r =
        num_mul (Math_pow approx (lit (10001 / 10000)) (num_of_int (tick_current pool)))
                (Math_pow approx (Fin 10)
                   (num_sub (num_of_int (mint_decimals_1 pool)) (num_of_int (mint_decimals_0 pool))))"
    and p: "priceDifferencePercent r =
        Math_abs (num_mul (num_div (num_sub (twapPrice r) (currentPrice r)) (currentPrice r)) (Fin 100))"
    by blast
  have c0: "currentPrice r = Fin 0" using c assms(2) by simp
  have "priceDifferencePercent r \<in> {NaN, PInf}"
    unfolding p c0 by (rule abs_mul_inf) (rule num_div_zero)
  then show ?thesis using r c0 by (simp add: calculateTWAP_body)
qed

text \<open>
  C4, amended. If the valid observations of a list with equal timestamps are equal, each
  function returns on every permutation of the list what it returns on the list.
\<close>

theorem permutation_invariant:
  assumes "mset xs = mset ys"
    and "inj_on block_timestamp (set (filter valid_observation xs))"
  shows "calculateTWAP approx pool xs = calculateTWAP approx pool ys
       \<and> calculateTWAPCLI approx pool xs = calculateTWAPCLI approx pool ys"
proof -
  have "mset (filter valid_observation xs) = mset (filter valid_observation ys)"
    using assms(1) by (metis mset_filter)
  then have "sort_key block_timestamp (filter valid_observation xs) =
             sort_key block_timestamp (filter valid_observation ys)"
    using assms(2) by (rule sort_key_eq_sort_key)
  then have "validObservations xs = validObservations ys"
    by (simp add: validObservations_def Array_sort_by_timestamp)
  then show ?thesis by (simp add: calculateTWAP_body)
qed

theorem permutation_invariant_witness:
  "mset [\<lparr>block_timestamp = 2, tick_cumulative = ''200''\<rparr>, \<lparr>block_timestamp = 0, tick_cumulative = ''7''\<rparr>,
         \<lparr>block_timestamp = 1, tick_cumulative = ''0''\<rparr>]
   = mset [\<lparr>block_timestamp = 1, tick_cumulative = ''0''\<rparr>, \<lparr>block_timestamp = 2, tick_cumulative = ''200''\<rparr>,
           \<lparr>block_timestamp = 0, tick_cumulative = ''7''\<rparr>]
   \<and> calculateTWAP pow_nearest \<lparr>tick_current = - 16520, mint_decimals_0 = 9, mint_decimals_1 = 6\<rparr>
       [\<lparr>block_timestamp = 2, tick_cumulative = ''200''\<rparr>, \<lparr>block_timestamp = 0, tick_cumulative = ''7''\<rparr>,
        \<lparr>block_timestamp = 1, tick_cumulative = ''0''\<rparr>]
     = calculateTWAP pow_nearest \<lparr>tick_current = - 16520, mint_decimals_0 = 9, mint_decimals_1 = 6\<rparr>
       [\<lparr>block_timestamp = 1, tick_cumulative = ''0''\<rparr>, \<lparr>block_timestamp = 2, tick_cumulative = ''200''\<rparr>,
        \<lparr>block_timestamp = 0, tick_cumulative = ''7''\<rparr>]"
  using permutation_invariant [of "[\<lparr>block_timestamp = 2, tick_cumulative = ''200''\<rparr>, \<lparr>block_timestamp = 0, tick_cumulative = ''7''\<rparr>,
         \<lparr>block_timestamp = 1, tick_cumulative = ''0''\<rparr>]"
     "[\<lparr>block_timestamp = 1, tick_cumulative = ''0''\<rparr>, \<lparr>block_timestamp = 2, tick_cumulative = ''200''\<rparr>,
           \<lparr>block_timestamp = 0, tick_cumulative = ''7''\<rparr>]" pow_nearest
     "\<lparr>tick_current = - 16520, mint_decimals_0 = 9, mint_decimals_1 = 6\<rparr>"]
  by (simp add: valid_observation_iff)

subsection \<open>Two observations\<close>

lemma validObservations_two:
  assumes "0 < block_timestamp A" "block_timestamp A < block_timestamp B"
  shows "validObservations [A, B] = [A, B]" and "validObservations [B, A] = [A, B]"
  using assms by (simp_all add: validObservations_sort)

lemma twapTick_two:
  assumes "0 < tA" "tA < tB" "tB - tA \<le> 2 ^ 53"
    and "\<bar>a\<bar> \<le> 2 ^ 53" "\<bar>b\<bar> \<le> 2 ^ 53" "\<bar>b - a\<bar> \<le> 2 ^ 53"
  shows "\<exists>r. twap_body approx pool
            [\<lparr>block_timestamp = tA, tick_cumulative = dec a\<rparr>,
             \<lparr>block_timestamp = tB, tick_cumulative = dec b\<rparr>] = Inr r
          \<and> twapTick r = fl (of_int (b - a) / of_int (tB - tA))"
proof -
  let ?v = "[\<lparr>block_timestamp = tA, tick_cumulative = dec a\<rparr>,
             \<lparr>block_timestamp = tB, tick_cumulative = dec b\<rparr>]"
  have "2 \<le> length ?v" by simp
  from twap_body_fields [OF this, of approx pool]
  obtain r where r: "twap_body approx pool ?v = Inr r"
    and t: "twapTick r =
        num_div (num_sub (parseInt (dec b)) (parseInt (dec a)))
                (num_sub (num_of_int tB) (num_of_int tA))"
    by auto
  have "\<bar>tB - tA\<bar> \<le> 2 ^ 53" using assms(2,3) by simp
  then have dt: "num_sub (num_of_int tB) (num_of_int tA) = Fin (of_int (tB - tA))"
    using fl_int_exact [of "tB - tA"] by (simp add: num_sub_Fin num_of_int_def)
  have "num_sub (parseInt (dec b)) (parseInt (dec a)) = num_sub (Fin (of_int b)) (Fin (of_int a))"
    using assms(4,5) by (simp add: parseInt_dec fl_int_exact)
  also have "\<dots> = Fin (of_int (b - a))"
    using fl_int_exact [OF assms(6)] by (simp add: num_sub_Fin)
  finally have dc: "num_sub (parseInt (dec b)) (parseInt (dec a)) = Fin (of_int (b - a))" .
  have "twapTick r = fl (of_int (b - a) / of_int (tB - tA))"
    unfolding t dt dc using assms(2) by simp
  then show ?thesis using r by blast
qed

text \<open>
  C1, amended. For two observations \<open>A\<close> and \<open>B\<close> with \<open>0 < A.timestamp < B.timestamp\<close>
  whose cumulative ticks, their difference and the time difference are at most \<open>2 ^ 53\<close>
  in magnitude, each function applied to the two of them, in either order, returns a
  \<open>twapTick\<close> that is the binary64 value nearest to the quotient of the two differences.
  (The difference of the cumulative ticks is computed on binary64 values.)
\<close>

theorem twapTick_two_observations:
  assumes "0 < tA" "tA < tB" "tB - tA \<le> 2 ^ 53"
    and "\<bar>a\<bar> \<le> 2 ^ 53" "\<bar>b\<bar> \<le> 2 ^ 53" "\<bar>b - a\<bar> \<le> 2 ^ 53"
    and "A = \<lparr>block_timestamp = tA, tick_cumulative = dec a\<rparr>"
    and "B = \<lparr>block_timestamp = tB, tick_cumulative = dec b\<rparr>"
  shows "(\<exists>r. calculateTWAP approx pool [A, B] = Inr r
              \<and> twapTick r = fl (of_int (b - a) / of_int (tB - tA)))
       \<and> (\<exists>r. calculateTWAP approx pool [B, A] = Inr r
              \<and> twapTick r = fl (of_int (b - a) / of_int (tB - tA)))
       \<and> (\<exists>r. calculateTWAPCLI approx pool [A, B] = Inr r
              \<and> twapTick r = fl (of_int (b - a) / of_int (tB - tA)))
       \<and> (\<exists>r. calculateTWAPCLI approx pool [B, A] = Inr r
              \<and> twapTick r = fl (of_int (b - a) / of_int (tB - tA)))"
proof -
  have v: "validObservations [A, B] = [A, B]" "validObservations [B, A] = [A, B]"
    using assms(1,2) by (simp_all add: validObservations_two assms(7,8))
  show ?thesis
    unfolding calculateTWAP_body v
    using twapTick_two [OF assms(1-6), of approx pool] by (simp add: assms(7,8))
qed

lemma scenario_parse:
  "dec (- 576701345305) = ''-576701345305''" "dec (- 576731966831) = ''-576731966831''"
  by (simp_all add: dec_def dec_nat.simps digit_char_def)

theorem twapTick_two_observations_witness:
  "(0::int) < 1755187080 \<and> (1755187080::int) < 1755188942
   \<and> (\<exists>r. calculateTWAP pow_nearest \<lparr>tick_current = - 16520, mint_decimals_0 = 9, mint_decimals_1 = 6\<rparr>
        [\<lparr>block_timestamp = 1755187080, tick_cumulative = ''-576701345305''\<rparr>,
         \<lparr>block_timestamp = 1755188942, tick_cumulative = ''-576731966831''\<rparr>] = Inr r
        \<and> twapTick r = fl (- 30621526 / 1862))"
  using twapTick_two_observations [of 1755187080 1755188942 "- 576701345305" "- 576731966831"
      "\<lparr>block_timestamp = 1755187080, tick_cumulative = ''-576701345305''\<rparr>"
      "\<lparr>block_timestamp = 1755188942, tick_cumulative = ''-576731966831''\<rparr>"
      pow_nearest "\<lparr>tick_current = - 16520, mint_decimals_0 = 9, mint_decimals_1 = 6\<rparr>"]
  by (simp add: scenario_parse)

lemma wide_dec:
  "dec 9007199254740993 = ''9007199254740993''" "dec 9007199254740994 = ''9007199254740994''"
  by (simp_all add: dec_def dec_nat.simps digit_char_def)

lemma wide_parse:
  "parseInt ''9007199254740993'' = Fin 9007199254740992"
  "parseInt ''9007199254740994'' = Fin 9007199254740994"
proof -
  have "parseInt (dec 9007199254740993) = Fin 9007199254740992"
    unfolding parseInt_dec by (simp add: fl_eval)
  then show "parseInt ''9007199254740993'' = Fin 9007199254740992" by (simp only: wide_dec)
  have "parseInt (dec 9007199254740994) = Fin 9007199254740994"
    unfolding parseInt_dec by (simp add: fl_eval)
  then show "parseInt ''9007199254740994'' = Fin 9007199254740994" by (simp only: wide_dec)
qed

lemma wide_ticks:
  "num_div (num_sub (parseInt ''9007199254740994'') (parseInt ''9007199254740993''))
           (num_sub (num_of_int 2) (num_of_int 1)) = Fin 2"
  "fl (of_int (9007199254740994 - 9007199254740993) / of_int (2 - 1)) = Fin 1"
  by (simp_all add: wide_parse num_sub_Fin num_of_int_def fl_eval)

text \<open>
  The claim C1 as it is stated fails beyond \<open>2 ^ 53\<close>: \<open>parseInt\<close> rounds
  \<open>9007199254740993\<close> to \<open>9007199254740992\<close>, and the \<open>twapTick\<close> is 2 where the quotient of
  the differences is 1.
\<close>

theorem twapTick_wide_counterexample:
  "(0::int) < 1 \<and> (1::int) < 2
   \<and> dec 9007199254740993 = ''9007199254740993'' \<and> dec 9007199254740994 = ''9007199254740994''
   \<and> map_sum id twapTick
       (calculateTWAP pow_nearest \<lparr>tick_current = - 16520, mint_decimals_0 = 9, mint_decimals_1 = 6\<rparr>
          [\<lparr>block_timestamp = 1, tick_cumulative = ''9007199254740993''\<rparr>,
           \<lparr>block_timestamp = 2, tick_cumulative = ''9007199254740994''\<rparr>])
     = Inr (Fin 2)
   \<and> fl (of_int (9007199254740994 - 9007199254740993) / of_int (2 - 1)) = Fin 1"
proof -
  let ?A = "\<lparr>block_timestamp = 1, tick_cumulative = ''9007199254740993''\<rparr>"
  let ?B = "\<lparr>block_timestamp = 2, tick_cumulative = ''9007199254740994''\<rparr>"
  have v: "validObservations [?A, ?B] = [?A, ?B]" by (simp add: validObservations_two)
  have "2 \<le> length [?A, ?B]" by simp
  from twap_body_fields [OF this, of pow_nearest
      "\<lparr>tick_current = - 16520, mint_decimals_0 = 9, mint_decimals_1 = 6\<rparr>"]
  have "map_sum id twapTick
       (calculateTWAP pow_nearest \<lparr>tick_current = - 16520, mint_decimals_0 = 9, mint_decimals_1 = 6\<rparr>
          [?A, ?B]) = Inr (Fin 2)"
    unfolding calculateTWAP_body v by (auto simp: wide_ticks(1))
  then show ?thesis using wide_ticks(2) wide_dec by simp
qed

subsection \<open>A tie between the oldest observations\<close>

lemma small_dec: "dec 0 = ''0''" "dec 100 = ''100''" "dec 200 = ''200''"
  by (simp_all add: dec_def dec_nat.simps digit_char_def)

lemma small_parse:
  "parseInt ''0'' = Fin 0" "parseInt ''100'' = Fin 100" "parseInt ''200'' = Fin 200"
proof -
  have "parseInt (dec 0) = Fin 0" "parseInt (dec 100) = Fin 100" "parseInt (dec 200) = Fin 200"
    unfolding parseInt_dec by (simp_all add: fl_eval)
  then show "parseInt ''0'' = Fin 0" "parseInt ''100'' = Fin 100" "parseInt ''200'' = Fin 200"
    by (simp_all only: small_dec)
qed

lemma tie_ticks:
  "num_div (num_sub (parseInt ''200'') (parseInt ''0'')) (num_sub (num_of_int 2) (num_of_int 1)) = Fin 200"
  "num_div (num_sub (parseInt ''200'') (parseInt ''100'')) (num_sub (num_of_int 2) (num_of_int 1)) = Fin 100"
  by (simp_all add: small_parse num_sub_Fin num_of_int_def fl_eval)

text \<open>
  The claim C4 as it is stated fails on a tie: the sort is stable, so of two valid
  observations with the oldest timestamp the one that comes first in the input is the
  oldest, and swapping them changes the \<open>twapTick\<close> from 200 to 100.
\<close>

theorem permutation_tie_counterexample:
  "mset [\<lparr>block_timestamp = 1, tick_cumulative = ''0''\<rparr>,
         \<lparr>block_timestamp = 1, tick_cumulative = ''100''\<rparr>,
         \<lparr>block_timestamp = 2, tick_cumulative = ''200''\<rparr>]
   = mset [\<lparr>block_timestamp = 1, tick_cumulative = ''100''\<rparr>,
           \<lparr>block_timestamp = 1, tick_cumulative = ''0''\<rparr>,
           \<lparr>block_timestamp = 2, tick_cumulative = ''200''\<rparr>]
   \<and> 2 \<le> length (filter valid_observation
         [\<lparr>block_timestamp = 1, tick_cumulative = ''0''\<rparr>,
          \<lparr>block_timestamp = 1, tick_cumulative = ''100''\<rparr>,
          \<lparr>block_timestamp = 2, tick_cumulative = ''200''\<rparr>])
   \<and> calculateTWAP pow_nearest \<lparr>tick_current = - 16520, mint_decimals_0 = 9, mint_decimals_1 = 6\<rparr>
        [\<lparr>block_timestamp = 1, tick_cumulative = ''0''\<rparr>,
         \<lparr>block_timestamp = 1, tick_cumulative = ''100''\<rparr>,
         \<lparr>block_timestamp = 2, tick_cumulative = ''200''\<rparr>]
     \<noteq> calculateTWAP pow_nearest \<lparr>tick_current = - 16520, mint_decimals_0 = 9, mint_decimals_1 = 6\<rparr>
        [\<lparr>block_timestamp = 1, tick_cumulative = ''100''\<rparr>,
         \<lparr>block_timestamp = 1, tick_cumulative = ''0''\<rparr>,
         \<lparr>block_timestamp = 2, tick_cumulative = ''200''\<rparr>]"
proof -
  let ?a = "\<lparr>block_timestamp = 1, tick_cumulative = ''0''\<rparr>"
  let ?b = "\<lparr>block_timestamp = 1, tick_cumulative = ''100''\<rparr>"
  let ?c = "\<lparr>block_timestamp = 2, tick_cumulative = ''200''\<rparr>"
  let ?pool = "\<lparr>tick_current = - 16520, mint_decimals_0 = 9, mint_decimals_1 = 6\<rparr>"
  have v: "validObservations [?a, ?b, ?c] = [?a, ?b, ?c]"
    "validObservations [?b, ?a, ?c] = [?b, ?a, ?c]"
    by (simp_all add: validObservations_sort)
  have l: "2 \<le> length [?a, ?b, ?c]" "2 \<le> length [?b, ?a, ?c]" by simp_all
  have 1: "map_sum id twapTick (calculateTWAP pow_nearest ?pool [?a, ?b, ?c]) = Inr (Fin 200)"
    using twap_body_fields [OF l(1), of pow_nearest ?pool]
    unfolding calculateTWAP_body v by (auto simp: tie_ticks)
  have 2: "map_sum id twapTick (calculateTWAP pow_nearest ?pool [?b, ?a, ?c]) = Inr (Fin 100)"
    using twap_body_fields [OF l(2), of pow_nearest ?pool]
    unfolding calculateTWAP_body v by (auto simp: tie_ticks)
  have "calculateTWAP pow_nearest ?pool [?a, ?b, ?c] \<noteq> calculateTWAP pow_nearest ?pool [?b, ?a, ?c]"
  proof
    assume "calculateTWAP pow_nearest ?pool [?a, ?b, ?c] = calculateTWAP pow_nearest ?pool [?b, ?a, ?c]"
    then have "Inr (Fin 200) = (Inr (Fin 100) :: error + num)" using 1 2 by simp
    then show False by simp
  qed
  then show ?thesis by (simp add: valid_observation_iff)
qed

subsection \<open>A current price of zero\<close>

lemma power_underflow:
  fixes c :: real
  assumes "1 + 1 / 10001 \<le> c" "10751075 \<le> N"
  shows "0 < c powr (- real N)" and "c powr (- real N) \<le> pow2 (- 1075)"
proof -
  have c1: "1 \<le> c" "0 < c" using assms(1) by simp_all
  have "(2::real) = 1 + real 10001 * (1 / 10001)" by simp
  also have "\<dots> \<le> (1 + 1 / 10001) ^ 10001" by (rule Bernoulli_inequality) simp
  also have "\<dots> \<le> c ^ 10001" using assms(1) by (intro power_mono) simp_all
  finally have "2 \<le> c ^ 10001" .
  then have "(2::real) ^ 1075 \<le> (c ^ 10001) ^ 1075" by (intro power_mono) simp_all
  also have "\<dots> = c ^ 10751075" by (simp only: flip: power_mult) simp
  also have "\<dots> \<le> c ^ N" using c1(1) assms(2) by (rule power_increasing [rotated])
  finally have big: "(2::real) ^ 1075 \<le> c ^ N" .
  have e: "c powr (- real N) = 1 / c ^ N"
    using c1(2) by (simp add: powr_minus powr_realpow inverse_eq_divide)
  show "0 < c powr (- real N)" using c1(2) by simp
  have "1 / c ^ N \<le> 1 / 2 ^ 1075"
    using big by (intro divide_left_mono) simp_all
  then show "c powr (- real N) \<le> pow2 (- 1075)" unfolding e by (simp add: pow2_def)
qed

lemma lit_1_0001: "lit (10001 / 10000) = Fin (4504049987333233 / 4503599627370496)"
  by (simp add: lit_def fl_eval)

lemma min_tick_price: "Math_pow pow_nearest (lit (10001 / 10000)) (num_of_int (- 2147483648)) = Fin 0"
proof -
  let ?c = "4504049987333233 / 4503599627370496 :: real"
  have "1 + 1 / 10001 \<le> ?c" by simp
  moreover have "(10751075::nat) \<le> 2147483648" by simp
  ultimately have "fl (?c powr (- real 2147483648)) = Fin 0"
    by (intro fl_underflow power_underflow)
  moreover have "Math_pow pow_nearest (lit (10001 / 10000)) (num_of_int (- 2147483648))
      = fl (?c powr (- real 2147483648))"
    unfolding lit_1_0001 num_of_int_def by (simp add: pow_nearest_def del: powr_numeral)
  ultimately show ?thesis by simp
qed

lemma ten_powr_minus_3: "(10::real) powr (- 3) = 1 / 1000"
proof -
  have "(10::real) powr (- 3) = inverse (10 powr 3)" by (rule powr_minus)
  also have "\<dots> = 1 / 1000" by simp
  finally show ?thesis .
qed

lemma decimal_adjustment:
  "Math_pow pow_nearest (Fin 10) (num_sub (num_of_int 6) (num_of_int 9))
     = Fin (1152921504606847 / 1152921504606846976)"
proof -
  have "num_sub (num_of_int 6) (num_of_int 9) = Fin (- 3)"
    by (simp add: num_sub_Fin num_of_int_def fl_eval)
  moreover have "Math_pow pow_nearest (Fin 10) (Fin (- 3)) = fl (10 powr (- 3))"
    by (simp add: pow_nearest_def)
  moreover have "fl (1 / 1000) = Fin (1152921504606847 / 1152921504606846976)"
    by (simp add: fl_eval)
  ultimately show ?thesis by (simp only: ten_powr_minus_3)
qed

lemma min_tick_current_price:
  "num_mul (Math_pow pow_nearest (lit (10001 / 10000)) (num_of_int (- 2147483648)))
           (Math_pow pow_nearest (Fin 10) (num_sub (num_of_int 6) (num_of_int 9))) = Fin 0"
  unfolding min_tick_price decimal_adjustment by (simp add: fl_def)

text \<open>
  At the least 32-bit tick the power underflows to zero, and so does the current price.
\<close>

theorem zero_current_price_returns_witness:
  "2 \<le> length (validObservations [\<lparr>block_timestamp = 1, tick_cumulative = ''0''\<rparr>,
                                    \<lparr>block_timestamp = 2, tick_cumulative = ''0''\<rparr>])
   \<and> num_mul (Math_pow pow_nearest (lit (10001 / 10000)) (num_of_int (- 2147483648)))
           (Math_pow pow_nearest (Fin 10) (num_sub (num_of_int 6) (num_of_int 9))) = Fin 0
   \<and> (\<exists>r. calculateTWAP pow_nearest
             \<lparr>tick_current = - 2147483648, mint_decimals_0 = 9, mint_decimals_1 = 6\<rparr>
             [\<lparr>block_timestamp = 1, tick_cumulative = ''0''\<rparr>,
              \<lparr>block_timestamp = 2, tick_cumulative = ''0''\<rparr>] = Inr r
          \<and> currentPrice r = Fin 0 \<and> priceDifferencePercent r \<in> {NaN, PInf})"
proof -
  let ?obs = "[\<lparr>block_timestamp = 1, tick_cumulative = ''0''\<rparr>,
               \<lparr>block_timestamp = 2, tick_cumulative = ''0''\<rparr>]"
  let ?pool = "\<lparr>tick_current = - 2147483648, mint_decimals_0 = 9, mint_decimals_1 = 6\<rparr>"
  have l: "2 \<le> length (validObservations ?obs)" by (simp add: validObservations_sort)
  have c: "num_mul (Math_pow pow_nearest (lit (10001 / 10000)) (num_of_int (tick_current ?pool)))
                 (Math_pow pow_nearest (Fin 10)
                    (num_sub (num_of_int (mint_decimals_1 ?pool)) (num_of_int (mint_decimals_0 ?pool))))
         = Fin 0"
    using min_tick_current_price by (simp only: poolState.simps)
  from zero_current_price_returns [OF l c]
  show ?thesis using l min_tick_current_price by blast
qed

end
